theory Spec2Isabelle
  imports Complex_Main
begin

unbundle bit_operations_syntax

section \<open>Strings and numbers of the runtime\<close>

text \<open>
  The program is TypeScript. A string is modelled as a list of 8-bit characters, each standing
  for one code unit below 256; the white space of \<open>trim\<close> and of the regular expression
  class \<open>\s\<close> is then tab, line feed, vertical tab, form feed, carriage return, space and
  the no-break space.

  A \<open>number\<close> is modelled as a value of \<open>jsnum\<close>: not-a-number, the two infinities, or a
  finite value, which is an exact rational here. The rounding of IEEE doubles is not
  modelled: arithmetic on finite values is exact.
\<close>

datatype jsnum = NaN | NegInf | Fin rat | PosInf

fun isNaN :: "jsnum \<Rightarrow> bool" where
  "isNaN NaN = True"
| "isNaN _ = False"

text \<open>The comparison \<open>a < b\<close> of two numbers: false as soon as one of them is NaN.\<close>

fun js_lt :: "jsnum \<Rightarrow> jsnum \<Rightarrow> bool" where
  "js_lt NaN _ = False"
| "js_lt _ NaN = False"
| "js_lt (Fin x) (Fin y) = (x < y)"
| "js_lt NegInf NegInf = False"
| "js_lt NegInf _ = True"
| "js_lt _ NegInf = False"
| "js_lt PosInf _ = False"
| "js_lt _ PosInf = True"

definition js_gt :: "jsnum \<Rightarrow> jsnum \<Rightarrow> bool" where
  "js_gt a b = js_lt b a"

text \<open>\<open>a <= b\<close> and \<open>a >= b\<close>: again false on NaN.\<close>

definition js_le :: "jsnum \<Rightarrow> jsnum \<Rightarrow> bool" where
  "js_le a b = (\<not> isNaN a \<and> \<not> isNaN b \<and> \<not> js_lt b a)"

definition js_ge :: "jsnum \<Rightarrow> jsnum \<Rightarrow> bool" where
  "js_ge a b = js_le b a"

text \<open>The rational under a finite number (only read where the number is known finite).\<close>

fun fin :: "jsnum \<Rightarrow> rat" where
  "fin (Fin x) = x"
| "fin _ = 0"

definition is_space :: "char \<Rightarrow> bool" where
  "is_space c = (c \<in> set [CHR 0x09, CHR 0x0A, CHR 0x0B, CHR 0x0C, CHR 0x0D, CHR 0x20, CHR 0xA0])"

definition is_digit :: "char \<Rightarrow> bool" where
  "is_digit c = (c \<in> set ''0123456789'')"

definition trim :: "string \<Rightarrow> string" where
  "trim s = rev (dropWhile is_space (rev (dropWhile is_space s)))"

text \<open>\<open>s.includes(t)\<close>: some suffix of \<open>s\<close> starts with \<open>t\<close>.\<close>

fun starts_with :: "string \<Rightarrow> string \<Rightarrow> bool" where
  "starts_with s [] = True"
| "starts_with [] (t # ts) = False"
| "starts_with (c # cs) (t # ts) = (c = t \<and> starts_with cs ts)"

fun str_includes :: "string \<Rightarrow> string \<Rightarrow> bool" where
  "str_includes [] t = (t = [])"
| "str_includes (c # cs) t = (starts_with (c # cs) t \<or> str_includes cs t)"

text \<open>\<open>s.split(c)\<close> for a one-character separator: never the empty list.\<close>

fun split_on :: "char \<Rightarrow> string \<Rightarrow> string list" where
  "split_on sep [] = [[]]"
| "split_on sep (c # cs) =
     (if c = sep then [] # split_on sep cs
      else (case split_on sep cs of [] \<Rightarrow> [[c]] | t # ts \<Rightarrow> (c # t) # ts))"

text \<open>
  \<open>s.split(/\s+/)\<close>: the pieces between maximal runs of white space. \<open>cur\<close> holds the piece
  being read, reversed; \<open>insep\<close> tells that the last character was white space.
\<close>

fun split_ws_from :: "bool \<Rightarrow> string \<Rightarrow> string \<Rightarrow> string list" where
  "split_ws_from insep cur [] = [rev cur]"
| "split_ws_from insep cur (c # cs) =
     (if is_space c then
        (if insep then split_ws_from True cur cs else rev cur # split_ws_from True [] cs)
      else split_ws_from False (c # cur) cs)"

definition split_ws :: "string \<Rightarrow> string list" where
  "split_ws s = split_ws_from False [] s"

text \<open>\<open>xs.join(sep)\<close>.\<close>

fun join :: "string \<Rightarrow> string list \<Rightarrow> string" where
  "join sep [] = []"
| "join sep [x] = x"
| "join sep (x # y # ys) = x @ sep @ join sep (y # ys)"

subsection \<open>parseFloat\<close>

text \<open>
  \<open>parseFloat\<close> skips leading white space and reads the longest prefix that is a decimal
  literal: an optional sign, then \<open>Infinity\<close>, or digits with an optional fraction and an
  optional exponent (an exponent counts only when it has a digit). What follows the prefix is
  ignored; with no such prefix the result is NaN.
\<close>

definition digit_val :: "char \<Rightarrow> nat" where
  "digit_val c = of_char c - 48"

definition digits_val :: "string \<Rightarrow> nat" where
  "digits_val ds = foldl (\<lambda>a c. 10 * a + digit_val c) 0 ds"

definition read_sign :: "string \<Rightarrow> bool \<times> string" where
  "read_sign s = (case s of [] \<Rightarrow> (False, [])
     | c # cs \<Rightarrow> if c = CHR ''-'' then (True, cs) else if c = CHR ''+'' then (False, cs) else (False, s))"

definition read_fraction :: "string \<Rightarrow> string" where
  "read_fraction s = (case s of [] \<Rightarrow> []
     | c # cs \<Rightarrow> if c = CHR ''.'' then takeWhile is_digit cs else [])"

definition after_fraction :: "string \<Rightarrow> string" where
  "after_fraction s = (case s of [] \<Rightarrow> []
     | c # cs \<Rightarrow> if c = CHR ''.'' then dropWhile is_digit cs else s)"

definition read_exponent :: "string \<Rightarrow> int" where
  "read_exponent s = (case s of [] \<Rightarrow> 0
     | c # cs \<Rightarrow>
        if c = CHR ''e'' \<or> c = CHR ''E'' then
          (let (neg, r) = read_sign cs; ed = takeWhile is_digit r
           in if ed = [] then 0 else if neg then - int (digits_val ed) else int (digits_val ed))
        else 0)"

definition scale10 :: "rat \<Rightarrow> int \<Rightarrow> rat" where
  "scale10 m e = (if 0 \<le> e then m * 10 ^ nat e else m / 10 ^ nat (- e))"

definition parseFloat :: "string \<Rightarrow> jsnum" where
  "parseFloat s =
     (let (neg, u) = read_sign (dropWhile is_space s) in
      if starts_with u ''Infinity'' then (if neg then NegInf else PosInf)
      else
        (let ip = takeWhile is_digit u;
             r1 = dropWhile is_digit u;
             fp = read_fraction r1;
             r2 = after_fraction r1
         in if ip = [] \<and> fp = [] then NaN
            else
              (let m = of_nat (digits_val ip) + of_nat (digits_val fp) / 10 ^ length fp;
                   v = scale10 m (read_exponent r2)
               in Fin (if neg then - v else v))))"

section \<open>Geometry\<close>

text \<open>A position is \<open>[lon, lat]\<close>; a ring is a list of positions; a polygon's coordinates are a list of rings.\<close>

type_synonym point = "rat \<times> rat"

subsection \<open>parsePolygonString\<close>

datatype poly_error =
    EmptyOrInvalid
  | EmptyAfterTrim
  | InvalidPairs "string list"
  | InsufficientPoints nat

text \<open>What one turn of the loop over \<open>coordPairs\<close> does with its pair.\<close>

datatype pair_class = Skipped | Invalid | Valid point

definition classify_pair :: "string \<Rightarrow> pair_class" where
  "classify_pair pair =
     (if pair = [] \<or> \<not> str_includes pair '','' then (if pair \<noteq> [] then Invalid else Skipped)
      else
        (case split_on CHR '','' pair of
           [latStr, lonStr] \<Rightarrow>
             if trim latStr = [] \<or> trim lonStr = [] then Invalid
             else
               (let lat = parseFloat (trim latStr); lon = parseFloat (trim lonStr) in
                if isNaN lat \<or> isNaN lon then Invalid
                else if js_lt lat (Fin (- 90)) \<or> js_gt lat (Fin 90)
                        \<or> js_lt lon (Fin (- 180)) \<or> js_gt lon (Fin 180) then Invalid
                else Valid (fin lon, fin lat))
         | _ \<Rightarrow> Invalid))"

fun scan_pairs :: "string list \<Rightarrow> point list \<Rightarrow> string list \<Rightarrow> point list \<times> string list" where
  "scan_pairs [] points invalidPairs = (points, invalidPairs)"
| "scan_pairs (pair # rest) points invalidPairs =
     (case classify_pair pair of
        Skipped \<Rightarrow> scan_pairs rest points invalidPairs
      | Invalid \<Rightarrow> scan_pairs rest points (invalidPairs @ [pair])
      | Valid p \<Rightarrow> scan_pairs rest (points @ [p]) invalidPairs)"

text \<open>
  The pairs the specification calls invalid, in its words: a component is missing (or there
  are more than two), a component is not numeric, the latitude is outside \<open>[-90, 90]\<close> or
  the longitude outside \<open>[-180, 180]\<close>. \<open>pair_parts\<close> reads the two numbers of a pair that
  has its two components.
\<close>

definition pair_parts :: "string \<Rightarrow> (jsnum \<times> jsnum) option" where
  "pair_parts pair =
     (case split_on CHR '','' pair of
        [latStr, lonStr] \<Rightarrow>
          if trim latStr = [] \<or> trim lonStr = [] then None
          else Some (parseFloat (trim latStr), parseFloat (trim lonStr))
      | _ \<Rightarrow> None)"

definition bad_pair :: "string \<Rightarrow> bool" where
  "bad_pair pair =
     (case pair_parts pair of
        None \<Rightarrow> True
      | Some (lat, lon) \<Rightarrow>
          isNaN lat \<or> isNaN lon
          \<or> \<not> (js_le (Fin (- 90)) lat \<and> js_le lat (Fin 90))
          \<or> \<not> (js_le (Fin (- 180)) lon \<and> js_le lon (Fin 180)))"

text \<open>What the loop leaves in \<open>points\<close> and in \<open>invalidPairs\<close>, stated without the loop.\<close>

definition valid_points :: "string list \<Rightarrow> point list" where
  "valid_points pairs =
     concat (map (\<lambda>pair. case classify_pair pair of Valid p \<Rightarrow> [p] | _ \<Rightarrow> []) pairs)"

definition invalid_pairs :: "string list \<Rightarrow> string list" where
  "invalid_pairs pairs = filter (\<lambda>pair. classify_pair pair = Invalid) pairs"

definition coordPairs :: "string \<Rightarrow> string list" where
  "coordPairs polygonStr = split_ws (trim polygonStr)"

definition close_ring :: "point list \<Rightarrow> point list" where
  "close_ring points =
     (if fst (hd points) \<noteq> fst (last points) \<or> snd (hd points) \<noteq> snd (last points)
      then points @ [hd points] else points)"

definition parsePolygonString :: "string \<Rightarrow> poly_error + point list list" where
  "parsePolygonString polygonStr =
     (if polygonStr = [] then Inl EmptyOrInvalid
      else if trim polygonStr = [] then Inl EmptyAfterTrim
      else
        (let (points, invalidPairs) = scan_pairs (coordPairs polygonStr) [] [] in
         if length invalidPairs > 0 then Inl (InvalidPairs invalidPairs)
         else if length points < 3 then Inl (InsufficientPoints (length points))
         else Inr [close_ring points]))"

text \<open>The decimal rendering of a count, and the message each error carries.\<close>

function show_nat :: "nat \<Rightarrow> string" where
  "show_nat n =
     (if n < 10 then [''0123456789'' ! n] else show_nat (n div 10) @ [''0123456789'' ! (n mod 10)])"
  by pat_completeness auto
termination
  by (relation "measure (\<lambda>n. n)") auto

declare show_nat.simps [simp del]

fun error_message :: "poly_error \<Rightarrow> string" where
  "error_message EmptyOrInvalid = ''Empty or invalid polygon string''"
| "error_message EmptyAfterTrim = ''Empty polygon string after trimming''"
| "error_message (InvalidPairs invalidPairs) =
     ''Invalid coordinate pairs: '' @ join '', '' (take 3 invalidPairs)
       @ (if length invalidPairs > 3 then ''...'' else '''')"
| "error_message (InsufficientPoints n) =
     ''Insufficient valid points: '' @ show_nat n @ '' (minimum 3 required)''"

subsection \<open>parseCircleString\<close>

record circle_data =
  center :: point
  radius :: jsnum

text \<open>
  \<open>const [latStr, lonStr] = parts[0].split(',')\<close> takes the first two pieces, a missing one
  being undefined; \<open>latStr && lonStr\<close> then asks both to be there and not empty.
\<close>

definition parseCircleString :: "string \<Rightarrow> circle_data option" where
  "parseCircleString circleStr =
     (if circleStr = [] then None
      else
        (case split_on CHR '' '' (trim circleStr) of
           p0 # p1 # _ \<Rightarrow>
             (case split_on CHR '','' p0 of
                latStr # lonStr # _ \<Rightarrow>
                  if latStr \<noteq> [] \<and> lonStr \<noteq> [] then
                    (let radius = parseFloat p1; lat = parseFloat latStr; lon = parseFloat lonStr in
                     if \<not> isNaN lat \<and> \<not> isNaN lon \<and> \<not> isNaN radius
                        \<and> js_ge lat (Fin (- 90)) \<and> js_le lat (Fin 90)
                        \<and> js_ge lon (Fin (- 180)) \<and> js_le lon (Fin 180)
                        \<and> js_gt radius (Fin 0)
                     then Some \<lparr>center = (fin lon, fin lat), radius = radius\<rparr>
                     else None)
                  else None
              | _ \<Rightarrow> None)
         | _ \<Rightarrow> None))"

text \<open>
  The shape \<open>lat,lon radius\<close> the specification gives for a circle string: the two
  coordinate texts and the radius text, when they are all there.
\<close>

definition circle_parts :: "string \<Rightarrow> (string \<times> string \<times> string) option" where
  "circle_parts s =
     (case split_on CHR '' '' (trim s) of
        p0 # p1 # _ \<Rightarrow>
          (case split_on CHR '','' p0 of
             latStr # lonStr # _ \<Rightarrow>
               if latStr \<noteq> [] \<and> lonStr \<noteq> [] then Some (latStr, lonStr, p1) else None
           | _ \<Rightarrow> None)
      | _ \<Rightarrow> None)"

subsection \<open>calculatePolygonCentroid\<close>

text \<open>The first loop: over consecutive positions, with the running \<open>area\<close>, \<open>cx\<close> and \<open>cy\<close>.\<close>

fun shoelace :: "point list \<Rightarrow> rat \<times> rat \<times> rat \<Rightarrow> rat \<times> rat \<times> rat" where
  "shoelace ((x0, y0) # (x1, y1) # ps) (area, cx, cy) =
     (let a = x0 * y1 - x1 * y0
      in shoelace ((x1, y1) # ps) (area + a, cx + (x0 + x1) * a, cy + (y0 + y1) * a))"
| "shoelace _ acc = acc"

text \<open>The second loop: the sums of the coordinates.\<close>

fun sum_points :: "point list \<Rightarrow> rat \<times> rat \<Rightarrow> rat \<times> rat" where
  "sum_points [] acc = acc"
| "sum_points ((px, py) # ps) (x, y) = sum_points ps (x + px, y + py)"

text \<open>
  \<open>coordinates[0]\<close> of an empty list is undefined and reading its length throws: the
  result is \<open>None\<close> there.
\<close>

definition calculatePolygonCentroid :: "point list list \<Rightarrow> point option" where
  "calculatePolygonCentroid coordinates =
     (case coordinates of
        [] \<Rightarrow> None
      | points # _ \<Rightarrow>
          if length points < 3 then Some (0, 0)
          else
            (let (area0, cx, cy) = shoelace points (0, 0, 0);
                 area = area0 * (1 / 2)
             in if \<bar>area\<bar> < 1 / 10 ^ 10 then
                  (let (x, y) = sum_points points (0, 0)
                   in Some (x / of_nat (length points), y / of_nat (length points)))
                else Some (cx / (6 * area), cy / (6 * area))))"

text \<open>
  The centroid in the specification's words: the shoelace sums over consecutive positions,
  written as sums over the index, and the arithmetic mean when the area is below \<open>1e-10\<close>.
\<close>

definition cross_term :: "point list \<Rightarrow> nat \<Rightarrow> rat" where
  "cross_term ps i = fst (ps ! i) * snd (ps ! Suc i) - fst (ps ! Suc i) * snd (ps ! i)"

definition signed_area :: "point list \<Rightarrow> rat" where
  "signed_area ps = (\<Sum>i < length ps - 1. cross_term ps i) / 2"

definition shoelace_centroid :: "point list \<Rightarrow> point" where
  "shoelace_centroid ps =
     (if \<bar>signed_area ps\<bar> < 1 / 10 ^ 10 then
        (sum_list (map fst ps) / of_nat (length ps), sum_list (map snd ps) / of_nat (length ps))
      else
        ((\<Sum>i < length ps - 1. (fst (ps ! i) + fst (ps ! Suc i)) * cross_term ps i)
           / (6 * signed_area ps),
         (\<Sum>i < length ps - 1. (snd (ps ! i) + snd (ps ! Suc i)) * cross_term ps i)
           / (6 * signed_area ps)))"

section \<open>Regular expressions\<close>

text \<open>
  The regular expressions of the program are sequences of literals and of greedy repetitions
  of one character class, some of them capture groups. \<open>rx_match\<close> matches such a sequence
  at the start of a string the way a backtracking matcher does: a repetition first takes as
  many characters as it can, then gives them back one at a time until the rest matches. It
  returns the captures and the text left after the match.
\<close>

datatype cclass = NoneOf string | OneOf string | Digit | AnyChar

fun in_class :: "cclass \<Rightarrow> char \<Rightarrow> bool" where
  "in_class (NoneOf cs) c = (c \<notin> set cs)"
| "in_class (OneOf cs) c = (c \<in> set cs)"
| "in_class Digit c = is_digit c"
| "in_class AnyChar c = (c \<noteq> CHR 0x0A \<and> c \<noteq> CHR 0x0D)"

datatype rx_atom =
    Lit string
  | Rep cclass nat "nat option"
  | CapRep cclass nat "nat option"

definition greedy :: "cclass \<Rightarrow> nat option \<Rightarrow> string \<Rightarrow> nat" where
  "greedy cl hi s =
     length (takeWhile (in_class cl) (case hi of None \<Rightarrow> s | Some h \<Rightarrow> take h s))"

fun first_some :: "'a option list \<Rightarrow> 'a option" where
  "first_some [] = None"
| "first_some (None # xs) = first_some xs"
| "first_some (Some x # xs) = Some x"

fun rx_match :: "rx_atom list \<Rightarrow> string \<Rightarrow> (string list \<times> string) option" where
  "rx_match [] s = Some ([], s)"
| "rx_match (Lit l # r) s =
     (if starts_with s l then rx_match r (drop (length l) s) else None)"
| "rx_match (Rep cl lo hi # r) s =
     first_some (map (\<lambda>k. rx_match r (drop k s)) (rev [lo..<Suc (greedy cl hi s)]))"
| "rx_match (CapRep cl lo hi # r) s =
     first_some (map (\<lambda>k. map_option (\<lambda>(caps, rest). (take k s # caps, rest)) (rx_match r (drop k s)))
                     (rev [lo..<Suc (greedy cl hi s)]))"

text \<open>
  All matches, left to right, each search starting where the last match ended
  (\<open>matchAll\<close>, and \<open>match\<close> with the \<open>g\<close> flag). Each match is the matched text and its
  captures. \<open>skip\<close> counts the characters of the last match still to step over.
\<close>

fun match_all_from :: "rx_atom list \<Rightarrow> nat \<Rightarrow> string \<Rightarrow> (string \<times> string list) list" where
  "match_all_from r skip [] =
     (if skip = 0 then (case rx_match r [] of None \<Rightarrow> [] | Some (caps, rest) \<Rightarrow> [([], caps)]) else [])"
| "match_all_from r skip (c # cs) =
     (if skip > 0 then match_all_from r (skip - 1) cs
      else
        (case rx_match r (c # cs) of
           None \<Rightarrow> match_all_from r 0 cs
         | Some (caps, rest) \<Rightarrow>
             (take (length (c # cs) - length rest) (c # cs), caps)
               # match_all_from r (length (c # cs) - length rest - 1) cs))"

definition matchAll :: "rx_atom list \<Rightarrow> string \<Rightarrow> (string \<times> string list) list" where
  "matchAll r s = match_all_from r 0 s"

text \<open>The first match (\<open>match\<close> without the \<open>g\<close> flag), if any.\<close>

fun match_first :: "rx_atom list \<Rightarrow> string \<Rightarrow> (string \<times> string list) option" where
  "match_first r [] = map_option (\<lambda>(caps, rest). ([], caps)) (rx_match r [])"
| "match_first r (c # cs) =
     (case rx_match r (c # cs) of
        None \<Rightarrow> match_first r cs
      | Some (caps, rest) \<Rightarrow> Some (take (length (c # cs) - length rest) (c # cs), caps))"

text \<open>\<open>s.replace(/lit/g, '')\<close> for a literal: every occurrence, left to right, is dropped.\<close>

fun remove_all_from :: "string \<Rightarrow> nat \<Rightarrow> string \<Rightarrow> string" where
  "remove_all_from l skip [] = []"
| "remove_all_from l skip (c # cs) =
     (if skip > 0 then remove_all_from l (skip - 1) cs
      else if starts_with (c # cs) l then remove_all_from l (length l - 1) cs
      else c # remove_all_from l 0 cs)"

section \<open>Feed links\<close>

definition isCapAlertLink :: "string \<Rightarrow> bool" where
  "isCapAlertLink link = (str_includes link ''/cap/'' \<or> str_includes link ''alert'')"

definition rss_regex :: "rx_atom list" where
  "rss_regex = [Lit ''<link>'', CapRep (NoneOf ''<'') 1 (Some 1000), Lit ''</link>'']"

definition atom_regex :: "rx_atom list" where
  "atom_regex =
     [Lit ''<link'', Rep (NoneOf ''>'') 1 None, Lit ''href='',
      Rep (OneOf [CHR 0x22, CHR 0x27]) 1 (Some 1),
      CapRep (NoneOf [CHR 0x22, CHR 0x27]) 1 (Some 1000),
      Rep (OneOf [CHR 0x22, CHR 0x27]) 1 (Some 1),
      Rep (NoneOf ''>'') 0 None, Lit ''>'']"

text \<open>One \<open>for\<close> loop of \<open>parseFeed\<close>: \<open>match[1].trim()\<close> is pushed when it looks like an alert link.\<close>

fun push_links :: "(string \<times> string list) list \<Rightarrow> string list \<Rightarrow> string list" where
  "push_links [] links = links"
| "push_links ((whole, caps) # ms) links =
     (let link = trim (hd caps)
      in if isCapAlertLink link then push_links ms (links @ [link]) else push_links ms links)"

text \<open>\<open>[...new Set(links)]\<close>: the first occurrence of each link, in order.\<close>

fun uniq_from :: "string list \<Rightarrow> string list \<Rightarrow> string list" where
  "uniq_from seen [] = []"
| "uniq_from seen (x # xs) =
     (if x \<in> set seen then uniq_from seen xs else x # uniq_from (x # seen) xs)"

definition parseFeed :: "string \<Rightarrow> string list" where
  "parseFeed feedText =
     (let links = push_links (matchAll rss_regex feedText) [];
          links = push_links (matchAll atom_regex feedText) links
      in uniq_from [] links)"

text \<open>
  The raw links the two scans find: the first capture of every match. \<open>cap_bounds\<close> lists,
  for the capture groups of a regular expression, the least and the greatest number of
  characters each may hold.
\<close>

definition rss_links :: "string \<Rightarrow> string list" where
  "rss_links feedText = map (\<lambda>m. hd (snd m)) (matchAll rss_regex feedText)"

definition atom_links :: "string \<Rightarrow> string list" where
  "atom_links feedText = map (\<lambda>m. hd (snd m)) (matchAll atom_regex feedText)"

fun cap_bounds :: "rx_atom list \<Rightarrow> (nat \<times> nat option) list" where
  "cap_bounds [] = []"
| "cap_bounds (Lit l # r) = cap_bounds r"
| "cap_bounds (Rep cl lo hi # r) = cap_bounds r"
| "cap_bounds (CapRep cl lo hi # r) = (lo, hi) # cap_bounds r"

section \<open>Certificate fingerprint\<close>

subsection \<open>SHA-256\<close>

text \<open>
  The hash of the runtime's \<open>createHash('sha256')\<close>, after FIPS 180-4. A 32-bit word is a
  natural number below \<open>2 ^ 32\<close>, a byte one below 256; addition wraps around. The round
  constants and the initial hash value are written in decimal.
\<close>

definition K256 :: "nat list" where
  "K256 = [
  1116352408, 1899447441, 3049323471, 3921009573, 961987163, 1508970993, 2453635748, 2870763221,
  3624381080, 310598401, 607225278, 1426881987, 1925078388, 2162078206, 2614888103, 3248222580,
  3835390401, 4022224774, 264347078, 604807628, 770255983, 1249150122, 1555081692, 1996064986,
  2554220882, 2821834349, 2952996808, 3210313671, 3336571891, 3584528711, 113926993, 338241895,
  666307205, 773529912, 1294757372, 1396182291, 1695183700, 1986661051, 2177026350, 2456956037,
  2730485921, 2820302411, 3259730800, 3345764771, 3516065817, 3600352804, 4094571909, 275423344,
  430227734, 506948616, 659060556, 883997877, 958139571, 1322822218, 1537002063, 1747873779,
  1955562222, 2024104815, 2227730452, 2361852424, 2428436474, 2756734187, 3204031479, 3329325298]"

definition H256 :: "nat list" where
  "H256 = [1779033703, 3144134277, 1013904242, 2773480762,
           1359893119, 2600822924, 528734635, 1541459225]"

definition add32 :: "nat \<Rightarrow> nat \<Rightarrow> nat" where
  "add32 x y = (x + y) mod 4294967296"

definition rotr :: "nat \<Rightarrow> nat \<Rightarrow> nat" where
  "rotr n x = (x div 2 ^ n) OR ((x * 2 ^ (32 - n)) mod 4294967296)"

definition ssig0 :: "nat \<Rightarrow> nat" where
  "ssig0 x = rotr 7 x XOR rotr 18 x XOR (x div 2 ^ 3)"

definition ssig1 :: "nat \<Rightarrow> nat" where
  "ssig1 x = rotr 17 x XOR rotr 19 x XOR (x div 2 ^ 10)"

definition bsig0 :: "nat \<Rightarrow> nat" where
  "bsig0 x = rotr 2 x XOR rotr 13 x XOR rotr 22 x"

definition bsig1 :: "nat \<Rightarrow> nat" where
  "bsig1 x = rotr 6 x XOR rotr 11 x XOR rotr 25 x"

definition ch :: "nat \<Rightarrow> nat \<Rightarrow> nat \<Rightarrow> nat" where
  "ch x y z = (x AND y) XOR ((4294967295 - x) AND z)"

definition maj :: "nat \<Rightarrow> nat \<Rightarrow> nat \<Rightarrow> nat" where
  "maj x y z = (x AND y) XOR (x AND z) XOR (y AND z)"

text \<open>
  The message schedule, one word for each round constant: \<open>win\<close> is the window of the
  sixteen words from \<open>W(t)\<close> on.
\<close>

fun sched :: "nat list \<Rightarrow> nat list \<Rightarrow> nat list" where
  "sched [] win = []"
| "sched (k # ks) win =
     hd win # sched ks (tl win @
       [add32 (add32 (ssig1 (win ! 14)) (win ! 9)) (add32 (ssig0 (win ! 1)) (win ! 0))])"

definition T1 :: "nat \<Rightarrow> nat \<Rightarrow> nat list \<Rightarrow> nat" where
  "T1 k w st =
     add32 (add32 (add32 (st ! 7) (bsig1 (st ! 4))) (add32 (ch (st ! 4) (st ! 5) (st ! 6)) k)) w"

definition T2 :: "nat list \<Rightarrow> nat" where
  "T2 st = add32 (bsig0 (st ! 0)) (maj (st ! 0) (st ! 1) (st ! 2))"

definition rstep :: "nat \<Rightarrow> nat \<Rightarrow> nat list \<Rightarrow> nat list" where
  "rstep t1 t2 st =
     [add32 t1 t2, st ! 0, st ! 1, st ! 2, add32 (st ! 3) t1, st ! 4, st ! 5, st ! 6]"

fun rounds :: "nat list \<Rightarrow> nat list \<Rightarrow> nat list \<Rightarrow> nat list" where
  "rounds (k # ks) (w # ws) st = rounds ks ws (rstep (T1 k w st) (T2 st) st)"
| "rounds _ _ st = st"

definition compress :: "nat list \<Rightarrow> nat list \<Rightarrow> nat list" where
  "compress hs ws = map2 add32 hs (rounds K256 (sched K256 ws) hs)"

fun words_of :: "nat list \<Rightarrow> nat list" where
  "words_of (a # b # c # d # bs) = (((a * 256 + b) * 256 + c) * 256 + d) # words_of bs"
| "words_of _ = []"

fun blocks :: "nat list \<Rightarrow> nat list \<Rightarrow> nat list" where
  "blocks hs (w0 # w1 # w2 # w3 # w4 # w5 # w6 # w7 # w8 # w9 # w10 # w11 # w12 # w13 # w14 # w15 # ws) =
     blocks (compress hs [w0, w1, w2, w3, w4, w5, w6, w7, w8, w9, w10, w11, w12, w13, w14, w15]) ws"
| "blocks hs _ = hs"

definition be_bytes4 :: "nat \<Rightarrow> nat list" where
  "be_bytes4 v = [v div 16777216 mod 256, v div 65536 mod 256, v div 256 mod 256, v mod 256]"

definition be_bytes8 :: "nat \<Rightarrow> nat list" where
  "be_bytes8 v = be_bytes4 (v div 4294967296) @ be_bytes4 (v mod 4294967296)"

definition pad :: "nat list \<Rightarrow> nat list" where
  "pad m = m @ [128] @ replicate ((119 - length m mod 64) mod 64) 0 @ be_bytes8 (8 * length m)"

definition sha256 :: "nat list \<Rightarrow> nat list" where
  "sha256 m = concat (map be_bytes4 (blocks H256 (words_of (pad m))))"

subsection \<open>Base64\<close>

text \<open>
  \<open>atob\<close> (the forgiving decoding): with a length that is a multiple of four, one or two
  final \<open>=\<close> are dropped; a length of one more than a multiple of four, or a character
  outside the alphabet, is an error (\<open>None\<close>); otherwise each character gives six bits and
  the bits left over at the end are dropped. The program calls it on text with no white space
  left. The hash reads the same text under the \<open>base64\<close> encoding, and only after \<open>atob\<close>
  has accepted it, so it reads the same bytes.
\<close>

definition b64_alphabet :: "string" where
  "b64_alphabet = ''ABCDEFGHIJKLMNOPQRSTUVWXYZabcdefghijklmnopqrstuvwxyz0123456789+/''"

fun index_of :: "char \<Rightarrow> string \<Rightarrow> nat" where
  "index_of c [] = 0"
| "index_of c (x # xs) = (if c = x then 0 else Suc (index_of c xs))"

definition b64_val :: "char \<Rightarrow> nat" where
  "b64_val c = index_of c b64_alphabet"

definition strip_padding :: "string \<Rightarrow> string" where
  "strip_padding s =
     (if length s mod 4 = 0 \<and> s \<noteq> [] \<and> last s = CHR ''=''
      then (if butlast s \<noteq> [] \<and> last (butlast s) = CHR ''='' then butlast (butlast s) else butlast s)
      else s)"

fun b64_groups :: "string \<Rightarrow> nat list" where
  "b64_groups (a # b # c # d # r) =
     (let n = ((b64_val a * 64 + b64_val b) * 64 + b64_val c) * 64 + b64_val d
      in [n div 65536, n div 256 mod 256, n mod 256] @ b64_groups r)"
| "b64_groups [a, b, c] =
     (let n = (b64_val a * 64 + b64_val b) * 64 + b64_val c
      in [n div 1024, n div 4 mod 256])"
| "b64_groups [a, b] = [(b64_val a * 64 + b64_val b) div 16]"
| "b64_groups _ = []"

definition atob :: "string \<Rightarrow> nat list option" where
  "atob s =
     (let d = strip_padding s in
      if length d mod 4 = 1 then None
      else if \<exists>c \<in> set d. c \<notin> set b64_alphabet then None
      else Some (b64_groups d))"

subsection \<open>The signature block\<close>

record signature =
  issuer :: string
  subject :: string
  validUntil :: string
  fingerprint :: string

definition CERT_ISSUER :: string where "CERT_ISSUER = ''cap.metservice.com''"
definition CERT_SUBJECT :: string where "CERT_SUBJECT = ''METEOROLOGICAL SERVICE OF NEW ZEALAND LIMITED''"
definition CERT_VALID_UNTIL :: string where "CERT_VALID_UNTIL = ''2025-10-23''"

definition hex_digit :: "nat \<Rightarrow> char" where
  "hex_digit n = ''0123456789abcdef'' ! n"

text \<open>\<open>digest('hex')\<close>: two lower-case digits for each byte.\<close>

definition hex_of :: "nat list \<Rightarrow> string" where
  "hex_of bs = concat (map (\<lambda>b. [hex_digit (b div 16), hex_digit (b mod 16)]) bs)"

text \<open>\<open>toUpperCase\<close>, on the letters a to z (it is applied to hexadecimal digits only).\<close>

definition upper_char :: "char \<Rightarrow> char" where
  "upper_char c =
     (case map_of (zip ''abcdefghijklmnopqrstuvwxyz'' ''ABCDEFGHIJKLMNOPQRSTUVWXYZ'') c of
        Some u \<Rightarrow> u
      | None \<Rightarrow> c)"

definition toUpperCase :: "string \<Rightarrow> string" where
  "toUpperCase s = map upper_char s"

definition cleanCert :: "string \<Rightarrow> string" where
  "cleanCert certSection = filter (\<lambda>c. \<not> is_space c) (remove_all_from ''&#13;'' 0 certSection)"

definition render_fingerprint :: "nat list \<Rightarrow> string" where
  "render_fingerprint digest =
     (let fingerprintHex = toUpperCase (hex_of digest);
          pairs = map fst (matchAll [Rep AnyChar 2 (Some 2)] fingerprintHex)
      in if pairs = [] \<or> join '':'' pairs = [] then fingerprintHex else join '':'' pairs)"

definition date_regex :: "rx_atom list" where
  "date_regex = [CapRep Digit 2 (Some 2), CapRep Digit 2 (Some 2), CapRep Digit 2 (Some 2),
                 CapRep Digit 2 (Some 2), CapRep Digit 2 (Some 2), CapRep Digit 2 (Some 2), Lit ''Z'']"

definition cert_valid_until :: "string \<Rightarrow> string" where
  "cert_valid_until certData =
     (case matchAll date_regex certData of
        m0 # (m1, caps) # _ \<Rightarrow>
          (case match_first date_regex m1 of
             Some (w, yy # mm # dd # _) \<Rightarrow> ''20'' @ yy @ ''-'' @ mm @ ''-'' @ dd
           | _ \<Rightarrow> CERT_VALID_UNTIL)
      | _ \<Rightarrow> CERT_VALID_UNTIL)"

text \<open>
  The \<open>try\<close> block over the certificate. Its only throwing step is \<open>atob\<close>; the \<open>catch\<close>
  puts the fallback record in place. \<open>certData\<close> is the decoded text, one character for each byte.
\<close>

definition parse_signature :: "string \<Rightarrow> signature" where
  "parse_signature certSection =
     (let clean = cleanCert certSection in
      case atob clean of
        None \<Rightarrow>
          \<lparr>issuer = CERT_ISSUER, subject = CERT_SUBJECT, validUntil = CERT_VALID_UNTIL,
           fingerprint = ''Unknown''\<rparr>
      | Some bytes \<Rightarrow>
          (let certData = map char_of bytes;
               fp = render_fingerprint (sha256 bytes);
               cnMatch = match_first [Lit ''CN='', CapRep (NoneOf '','') 1 None] certData;
               oMatch = match_first [Lit ''O='', CapRep (NoneOf '','') 1 None] certData
           in \<lparr>issuer = (case cnMatch of Some (w, caps) \<Rightarrow> trim (hd caps) | None \<Rightarrow> ''MetService''),
               subject = (case oMatch of Some (w, caps) \<Rightarrow> trim (hd caps) | None \<Rightarrow> CERT_SUBJECT),
               validUntil = cert_valid_until certData,
               fingerprint = (if fp = [] then ''Unknown'' else fp)\<rparr>))"

text \<open>
  The rendering of one byte as a pair of upper-case hexadecimal digits, and the fingerprint in
  the specification's words: the hash of the bytes of the cleaned base64 text itself (one
  byte for each character), rendered as colon-separated pairs.
\<close>

definition hex_pair :: "nat \<Rightarrow> string" where
  "hex_pair b = [''0123456789ABCDEF'' ! (b div 16), ''0123456789ABCDEF'' ! (b mod 16)]"

definition fingerprint_over_text :: "string \<Rightarrow> string" where
  "fingerprint_over_text certSection =
     join '':'' (map hex_pair (sha256 (map of_char (cleanCert certSection))))"

section \<open>Code tables\<close>

text \<open>The three lookup tables, as association lists, and the functions that read them.\<close>

definition CATEGORY_MAP :: "(string \<times> string) list" where
  "CATEGORY_MAP = [
    (''Geo'', ''Geophysical (including landslide)''),
    (''Met'', ''Meteorological (including flood)''),
    (''Safety'', ''General emergency and public safety''),
    (''Security'', ''Law enforcement, military, homeland and local/private security''),
    (''Rescue'', ''Rescue and recovery''),
    (''Fire'', ''Fire suppression and rescue''),
    (''Health'', ''Medical and public health''),
    (''Env'', ''Pollution and other environmental hazards''),
    (''Transport'', ''Public and private transportation''),
    (''Infra'', ''Utility, telecommunication, other non-transport infrastructure''),
    (''CBRNE'', ''Chemical, Biological, Radiological, Nuclear or High-Yield Explosive threat or attack''),
    (''Other'', ''Other events'')]"

definition EVENT_MAP :: "(string \<times> string) list" where
  "EVENT_MAP = [
    (''storm'', ''Storm''),
    (''hail'', ''Hail''),
    (''rainfall'', ''Rainfall''),
    (''snowfall'', ''Snowfall''),
    (''thunderstorm'', ''Thunderstorm''),
    (''tornado'', ''Tornado''),
    (''tropCyclone'', ''Tropical Cyclone''),
    (''tropStorm'', ''Tropical Storm''),
    (''winterStorm'', ''Winter Storm''),
    (''weather'', ''Weather''),
    (''temperature'', ''Temperature''),
    (''coldOutbreak'', ''Cold Outbreak''),
    (''heatWave'', ''Heat Wave''),
    (''frost'', ''Frost''),
    (''windChill'', ''Wind Chill''),
    (''wind'', ''Wind''),
    (''avLightning'', ''Airport Lightning Threat''),
    (''avThunder'', ''Airport Thunder Threat''),
    (''fireWeather'', ''Fire Weather''),
    (''flood'', ''Flood''),
    (''flashFlood'', ''Flash Flood''),
    (''highWater'', ''High Water Level''),
    (''stormSurge'', ''Storm Surge''),
    (''riverFlood'', ''River Flood''),
    (''earthquake'', ''Earthquake''),
    (''tsunami'', ''Tsunami''),
    (''landTsunami'', ''Land Threat Tsunami''),
    (''beachTsunami'', ''Beach Threat Tsunami''),
    (''marine'', ''Marine''),
    (''galeWind'', ''Gale Wind''),
    (''hurricFrcWnd'', ''Hurricane Force Wind''),
    (''iceberg'', ''Iceberg''),
    (''largeSurf'', ''Large Coastal Surf''),
    (''largeSwell'', ''Large Swell Waves''),
    (''squall'', ''Squall''),
    (''stormFrcWind'', ''Storm Force Wind''),
    (''strongWind'', ''Strong Wind''),
    (''waterspout'', ''Waterspout''),
    (''snow'', ''Snow'')]"

definition ICON_MAP :: "(string \<times> string) list" where
  "ICON_MAP = [
    (''snow'', ''NaturalHazards/NH.07.Snow.png''),
    (''snowfall'', ''NaturalHazards/NH.07.Snow.png''),
    (''rain'', ''NaturalHazards/NH.05.HeavyRain.png''),
    (''rainfall'', ''NaturalHazards/NH.05.HeavyRain.png''),
    (''wind'', ''NaturalHazards/NH.04.StrongWind.png''),
    (''storm'', ''NaturalHazards/NH.06.ElectricalStorm.png''),
    (''thunderstorm'', ''NaturalHazards/NH.06.ElectricalStorm.png''),
    (''tornado'', ''NaturalHazards/NH.16.Tornado.png''),
    (''tropCyclone'', ''NaturalHazards/NH.09.TropicalCyclone.png''),
    (''tropStorm'', ''NaturalHazards/NH.09.TropicalCyclone.png''),
    (''flood'', ''NaturalHazards/NH.01.Flood.png''),
    (''flashFlood'', ''NaturalHazards/NH.01.Flood.png''),
    (''earthquake'', ''NaturalHazards/NH.24.Earthquake.png''),
    (''tsunami'', ''NaturalHazards/NH.03.Tsunami.png''),
    (''marine'', ''Incidents/INC.24.Marine.png''),
    (''fire'', ''Incidents/INC.35.Fire.png''),
    (''fireWeather'', ''Incidents/INC.37.Fire.Vegetation.png''),
    (''landslide'', ''NaturalHazards/NH.18.Landslide.png''),
    (''stormSurge'', ''NaturalHazards/NH.02.StormSurge.png''),
    (''ice'', ''NaturalHazards/NH.08.Ice.png''),
    (''drought'', ''NaturalHazards/NH.22.Drought.png''),
    (''biosecurity'', ''NaturalHazards/NH.23.Biosecurity.png''),
    (''hail'', ''NaturalHazards/NH.06.ElectricalStorm.png''),
    (''winterStorm'', ''NaturalHazards/NH.07.Snow.png''),
    (''weather'', ''Incidents/INC.38.NaturalDisaster1.Urgent.png''),
    (''temperature'', ''Incidents/INC.38.NaturalDisaster1.Urgent.png''),
    (''coldOutbreak'', ''NaturalHazards/NH.08.Ice.png''),
    (''heatWave'', ''Incidents/INC.38.NaturalDisaster1.Urgent.png''),
    (''frost'', ''NaturalHazards/NH.08.Ice.png''),
    (''windChill'', ''NaturalHazards/NH.08.Ice.png''),
    (''avLightning'', ''NaturalHazards/NH.06.ElectricalStorm.png''),
    (''avThunder'', ''NaturalHazards/NH.06.ElectricalStorm.png''),
    (''highWater'', ''NaturalHazards/NH.01.Flood.png''),
    (''riverFlood'', ''NaturalHazards/NH.01.Flood.png''),
    (''landTsunami'', ''NaturalHazards/NH.03.Tsunami.png''),
    (''beachTsunami'', ''NaturalHazards/NH.03.Tsunami.png''),
    (''galeWind'', ''NaturalHazards/NH.04.StrongWind.png''),
    (''hurricFrcWnd'', ''NaturalHazards/NH.04.StrongWind.png''),
    (''iceberg'', ''Incidents/INC.24.Marine.png''),
    (''largeSurf'', ''Incidents/INC.24.Marine.png''),
    (''largeSwell'', ''Incidents/INC.24.Marine.png''),
    (''squall'', ''NaturalHazards/NH.04.StrongWind.png''),
    (''stormFrcWind'', ''NaturalHazards/NH.04.StrongWind.png''),
    (''strongWind'', ''NaturalHazards/NH.04.StrongWind.png''),
    (''waterspout'', ''NaturalHazards/NH.16.Tornado.png'')]"

definition ICON_PREFIX :: string where
  "ICON_PREFIX = ''bb4df0a6-ca8d-4ba8-bb9e-3deb97ff015e:''"

definition DEFAULT_ICON :: string where
  "DEFAULT_ICON = ''Incidents/INC.38.NaturalDisaster3.InformationOnly.png''"

text \<open>\<open>a || b\<close> on strings: the empty string is the falsy one.\<close>

definition or_else :: "string \<Rightarrow> string \<Rightarrow> string" where
  "or_else a b = (if a = [] then b else a)"

definition getCategoryDescription :: "string \<Rightarrow> string" where
  "getCategoryDescription categoryCode =
     (case map_of CATEGORY_MAP categoryCode of
        Some d \<Rightarrow> d
      | None \<Rightarrow> or_else categoryCode ''Unknown'')"

definition getEventDescription :: "string \<Rightarrow> string" where
  "getEventDescription eventCode =
     (case map_of EVENT_MAP eventCode of
        Some d \<Rightarrow> d
      | None \<Rightarrow> or_else eventCode ''Unknown'')"

definition getEventIcon :: "string \<Rightarrow> string \<Rightarrow> string" where
  "getEventIcon eventType category =
     (if category = ''Health'' then ICON_PREFIX @ ''Incidents/INC.60.GHS08.HealthHazard.png''
      else if category = ''Fire'' then ICON_PREFIX @ ''Incidents/INC.35.Fire.png''
      else ICON_PREFIX @ (case map_of ICON_MAP eventType of Some f \<Rightarrow> f | None \<Rightarrow> DEFAULT_ICON))"

section \<open>The alert document\<close>

text \<open>
  The XML parser is a library outside the repository. Its result is modelled as records whose
  fields are optional: \<open>None\<close> is a property that is missing (or holds an empty element),
  \<open>Some\<close> a text. A property that may repeat (\<open>polygon\<close>, \<open>parameter\<close>) holds one value or
  an array of them. \<open>x_certificate\<close> is the text at
  \<open>Signature.KeyInfo.X509Data.X509Certificate\<close>.
\<close>

datatype 'a one_or_many = One 'a | Many "'a list"

record xml_param =
  x_valueName :: "string option"
  x_value :: "string option"

record xml_area =
  x_areaDesc :: "string option"
  x_polygon :: "string one_or_many option"
  x_circle :: "string option"

record xml_info =
  x_category :: "string option"
  x_event :: "string option"
  x_urgency :: "string option"
  x_severity :: "string option"
  x_certainty :: "string option"
  x_senderName :: "string option"
  x_headline :: "string option"
  x_description :: "string option"
  x_instruction :: "string option"
  x_responseType :: "string option"
  x_onset :: "string option"
  x_expires :: "string option"
  x_web :: "string option"
  x_area :: "xml_area option"
  x_parameter :: "xml_param one_or_many option"

record xml_alert =
  x_identifier :: "string option"
  x_sender :: "string option"
  x_sent :: "string option"
  x_status :: "string option"
  x_msgType :: "string option"
  x_scope :: "string option"
  x_info :: "xml_info option"
  x_certificate :: "string option"

record xml_doc =
  x_alert :: "xml_alert option"

record cap_area =
  areaDesc :: string
  polygon :: "string one_or_many"
  circle :: string

record cap_info =
  category :: string
  event :: string
  urgency :: string
  severity :: string
  certainty :: string
  senderName :: string
  headline :: string
  description :: string
  instruction :: string
  responseType :: string
  onset :: string
  expires :: string
  web :: string
  area :: cap_area
  colorCode :: "string option"

record cap_alert =
  identifier' :: string
  sender :: string
  sent :: string
  status :: string
  msgType :: string
  scope :: string
  info :: cap_info
  signature :: "signature option"

text \<open>\<open>x || ''\<close> on an optional text.\<close>

definition or_empty :: "string option \<Rightarrow> string" where
  "or_empty x = (case x of None \<Rightarrow> [] | Some t \<Rightarrow> t)"

definition colorMap :: "(string \<times> string) list" where
  "colorMap = [(''Red'', ''#FF0000''), (''Orange'', ''#FF8918''), (''Yellow'', ''#FFFF00''),
               (''Green'', ''#00FF00''), (''Blue'', ''#0000FF'')]"

definition params_of :: "xml_param one_or_many \<Rightarrow> xml_param list" where
  "params_of p = (case p of One q \<Rightarrow> [q] | Many qs \<Rightarrow> qs)"

definition extract_color :: "xml_param one_or_many option \<Rightarrow> string option" where
  "extract_color parameter =
     (case parameter of
        None \<Rightarrow> None
      | Some p \<Rightarrow>
          (case find (\<lambda>q. x_valueName q = Some ''ColourCodeHex'') (params_of p) of
             Some hexParam \<Rightarrow> x_value hexParam
           | None \<Rightarrow>
               (case find (\<lambda>q. x_valueName q = Some ''ColourCode'') (params_of p) of
                  Some colorParam \<Rightarrow>
                    (case x_value colorParam of None \<Rightarrow> None | Some v \<Rightarrow> map_of colorMap v)
                | None \<Rightarrow> None)))"

text \<open>
  A certificate section that is missing or empty leaves the signature undefined.
\<close>

definition extract_signature :: "string option \<Rightarrow> signature option" where
  "extract_signature certSection =
     (case certSection of
        None \<Rightarrow> None
      | Some c \<Rightarrow> if c = [] then None else Some (parse_signature c))"

text \<open>
  \<open>parseXML\<close> on the parser's result; \<open>None\<close> in place of the document stands for the parser
  throwing, which the outer \<open>catch\<close> turns into null.
\<close>

definition parseXML :: "xml_doc option \<Rightarrow> cap_alert option" where
  "parseXML parsed =
     (case parsed of
        None \<Rightarrow> None
      | Some doc \<Rightarrow>
          (case x_alert doc of
             None \<Rightarrow> None
           | Some alert \<Rightarrow>
               (let ident = or_empty (x_identifier alert);
                    sender' = or_empty (x_sender alert);
                    sent' = or_empty (x_sent alert)
                in case x_info alert of
                     None \<Rightarrow> None
                   | Some info' \<Rightarrow>
                       if ident = [] \<or> sender' = [] \<or> sent' = [] then None
                       else
                         (let area' = (case x_area info' of
                                        None \<Rightarrow> \<lparr>x_areaDesc = None, x_polygon = None, x_circle = None\<rparr>
                                      | Some a \<Rightarrow> a)
                          in Some
                            \<lparr>identifier' = ident, sender = sender', sent = sent',
                             status = or_empty (x_status alert),
                             msgType = or_empty (x_msgType alert),
                             scope = or_empty (x_scope alert),
                             info =
                               \<lparr>category = or_empty (x_category info'),
                                event = or_empty (x_event info'),
                                urgency = or_empty (x_urgency info'),
                                severity = or_empty (x_severity info'),
                                certainty = or_empty (x_certainty info'),
                                senderName = or_empty (x_senderName info'),
                                headline = or_empty (x_headline info'),
                                description = or_empty (x_description info'),
                                instruction = or_empty (x_instruction info'),
                                responseType = or_empty (x_responseType info'),
                                onset = or_empty (x_onset info'),
                                expires = or_empty (x_expires info'),
                                web = or_empty (x_web info'),
                                area =
                                  \<lparr>areaDesc = or_empty (x_areaDesc area'),
                                   polygon = (case x_polygon area' of None \<Rightarrow> One [] | Some pg \<Rightarrow> pg),
                                   circle = or_empty (x_circle area')\<rparr>,
                                colorCode = extract_color (x_parameter info')\<rparr>,
                             signature = extract_signature (x_certificate alert)\<rparr>))))"

section \<open>Output features\<close>

datatype geometry = Point point | Polygon "point list list"

record feature_link =
  uid :: string
  relation :: string
  mime :: string
  url :: string
  link_remarks :: string

record feature_style =
  stroke :: string
  stroke_opacity :: rat
  stroke_width :: nat
  stroke_style :: string
  fill_opacity :: rat
  fill :: string

record feature_metadata =
  m_sender :: string
  m_sent :: string
  m_status :: string
  m_msgType :: string
  m_scope :: string
  m_category :: string
  m_event :: string
  m_urgency :: string
  m_severity :: string
  m_certainty :: string
  m_senderName :: string
  m_headline :: string
  m_description :: string
  m_instruction :: string
  m_responseType :: string
  m_onset :: string
  m_expires :: string
  m_web :: string
  m_areaDesc :: string
  isCenter :: bool

text \<open>
  A feature with its properties. \<open>inline_style\<close> holds the stroke and fill properties a
  polygon feature carries among its own properties; \<open>style\<close> is the \<open>style\<close> property of a
  point feature, an object that may be empty (\<open>Some None\<close>).
\<close>

record feature =
  feature_id :: string
  callsign :: string
  cot_type :: string
  time :: string
  start :: string
  stale :: "string option"
  icon :: "string option"
  metadata :: feature_metadata
  remarks :: string
  links :: "feature_link list option"
  inline_style :: "feature_style option"
  style :: "feature_style option option"
  archived :: bool
  geometry :: geometry

text \<open>
  What the program takes from outside the repository: the fetch of a URL with its retries
  (\<open>None\<close> when it throws in the end, or when the URL does not parse), the XML parser
  (\<open>None\<close> when it throws), and the dates of the runtime. \<open>new Date(s).toISOString()\<close> throws
  a RangeError on a text that is not a date: \<open>None\<close>. \<open>toLocaleString\<close> never throws.
\<close>

record runtime =
  fetch_text :: "string \<Rightarrow> string option"
  xml_parse :: "string \<Rightarrow> xml_doc option"
  toISOString :: "string \<Rightarrow> string option"
  toLocaleString :: "string \<Rightarrow> string"

definition feature_times :: "runtime \<Rightarrow> cap_alert \<Rightarrow> (string \<times> string \<times> string option) option" where
  "feature_times rt alert =
     (case toISOString rt (sent alert) of
        None \<Rightarrow> None
      | Some t \<Rightarrow>
          (case (if onset (info alert) \<noteq> [] then toISOString rt (onset (info alert))
                 else toISOString rt (sent alert)) of
             None \<Rightarrow> None
           | Some st \<Rightarrow>
               if expires (info alert) \<noteq> [] then
                 (case toISOString rt (expires (info alert)) of
                    None \<Rightarrow> None
                  | Some e \<Rightarrow> Some (t, st, Some e))
               else Some (t, st, None)))"

definition alert_metadata :: "cap_alert \<Rightarrow> feature_metadata" where
  "alert_metadata alert =
     \<lparr>m_sender = sender alert, m_sent = sent alert, m_status = status alert,
      m_msgType = msgType alert, m_scope = scope alert,
      m_category = category (info alert), m_event = event (info alert),
      m_urgency = urgency (info alert), m_severity = severity (info alert),
      m_certainty = certainty (info alert), m_senderName = senderName (info alert),
      m_headline = headline (info alert), m_description = description (info alert),
      m_instruction = instruction (info alert), m_responseType = responseType (info alert),
      m_onset = onset (info alert), m_expires = expires (info alert),
      m_web = web (info alert), m_areaDesc = areaDesc (area (info alert)),
      isCenter = False\<rparr>"

definition LF :: string where
  "LF = [CHR 0x0A]"

definition alert_remarks :: "runtime \<Rightarrow> cap_alert \<Rightarrow> string" where
  "alert_remarks rt alert =
     join LF (filter (\<lambda>r. trim r \<noteq> [])
       ([or_else (''Description: '' @ description (info alert)) [],
         or_else (''Instruction: '' @ instruction (info alert)) [],
         ''Category: '' @ getCategoryDescription (category (info alert)),
         ''Event: '' @ getEventDescription (event (info alert)),
         ''Urgency: '' @ or_else (urgency (info alert)) ''Unknown'',
         ''Severity: '' @ or_else (severity (info alert)) ''Unknown'',
         ''Certainty: '' @ or_else (certainty (info alert)) ''Unknown'',
         ''Response: '' @ or_else (responseType (info alert)) ''Unknown'']
        @ (if onset (info alert) \<noteq> []
           then [''Onset: '' @ toLocaleString rt (onset (info alert)) @ '' NZT''] else [])
        @ (if expires (info alert) \<noteq> []
           then [''Expires: '' @ toLocaleString rt (expires (info alert)) @ '' NZT''] else [])
        @ (case signature alert of
             None \<Rightarrow> []
           | Some sg \<Rightarrow>
               [[], ''Digital Signature'',
                ''Name: '' @ or_else (subject sg) ''Unknown'',
                ''Issuer: '' @ or_else (issuer sg) ''Unknown'',
                ''Valid Until: '' @ or_else (validUntil sg) ''Unknown'',
                ''Fingerprint: '' @ or_else (fingerprint sg) ''Unknown''])))"

definition alert_links :: "cap_alert \<Rightarrow> string \<Rightarrow> feature_link list option" where
  "alert_links alert linkId =
     (if web (info alert) \<noteq> [] then
        Some [\<lparr>uid = linkId, relation = ''r-u'', mime = ''text/html'', url = web (info alert),
               link_remarks = ''CAP Alert Details''\<rparr>]
      else None)"

text \<open>\<open>alert.info.colorCode ? ... : ...\<close>: a colour that is there and not empty.\<close>

definition color_style :: "cap_alert \<Rightarrow> rat \<Rightarrow> rat \<Rightarrow> feature_style option" where
  "color_style alert so fo =
     (case colorCode (info alert) of
        None \<Rightarrow> None
      | Some c \<Rightarrow>
          if c = [] then None
          else Some \<lparr>stroke = c, stroke_opacity = so, stroke_width = 3, stroke_style = ''solid'',
                      fill_opacity = fo, fill = c\<rparr>)"

definition polygon_feature :: "runtime \<Rightarrow> cap_alert \<Rightarrow> string \<Rightarrow> point list list \<Rightarrow> feature option" where
  "polygon_feature rt alert polygonId coordinates =
     (case feature_times rt alert of
        None \<Rightarrow> None
      | Some (t, st, e) \<Rightarrow>
          Some \<lparr>feature_id = polygonId,
                callsign = or_else (headline (info alert)) ''CAP Alert'',
                cot_type = ''a-f-X-i'', time = t, start = st, stale = e,
                icon = None,
                metadata = alert_metadata alert,
                remarks = alert_remarks rt alert,
                links = alert_links alert polygonId,
                inline_style = color_style alert (1 / 2) (2 / 5),
                style = None,
                archived = False,
                geometry = Polygon coordinates\<rparr>)"

definition center_feature :: "runtime \<Rightarrow> cap_alert \<Rightarrow> feature \<Rightarrow> point \<Rightarrow> feature option" where
  "center_feature rt alert polygonFeature centroid =
     (case feature_times rt alert of
        None \<Rightarrow> None
      | Some (t, st, e) \<Rightarrow>
          Some \<lparr>feature_id = feature_id polygonFeature @ ''-center'',
                callsign = or_else (headline (info alert)) ''CAP Alert'',
                cot_type = ''a-f-X-i'', time = t, start = st, stale = e,
                icon = Some (getEventIcon (event (info alert)) (category (info alert))),
                metadata = (metadata polygonFeature)\<lparr>isCenter := True\<rparr>,
                remarks = remarks polygonFeature,
                links = alert_links alert (feature_id polygonFeature @ ''-center''),
                inline_style = None,
                style = None,
                archived = False,
                geometry = Point centroid\<rparr>)"

definition point_feature :: "runtime \<Rightarrow> cap_alert \<Rightarrow> geometry \<Rightarrow> feature option" where
  "point_feature rt alert g =
     (case feature_times rt alert of
        None \<Rightarrow> None
      | Some (t, st, e) \<Rightarrow>
          Some \<lparr>feature_id = identifier' alert,
                callsign = or_else (headline (info alert)) ''CAP Alert'',
                cot_type = ''a-f-X-i'', time = t, start = st, stale = e,
                icon = Some (getEventIcon (event (info alert)) (category (info alert))),
                metadata = alert_metadata alert,
                remarks = alert_remarks rt alert,
                links = alert_links alert (identifier' alert),
                inline_style = None,
                style = Some (color_style alert (128 / 255) (128 / 255)),
                archived = False,
                geometry = g\<rparr>)"

section \<open>The pipeline\<close>

text \<open>
  The loop over the polygon strings of one alert, inside the inner \<open>try\<close>. \<open>n\<close> is the number
  of strings, \<open>i\<close> the index of the next one, \<open>fc\<close> the features collected so far. The result
  tells whether the loop ended (\<open>True\<close>) or threw (\<open>False\<close>), with the features pushed up
  to there.
\<close>

fun polygon_loop ::
  "runtime \<Rightarrow> cap_alert \<Rightarrow> nat \<Rightarrow> nat \<Rightarrow> string list \<Rightarrow> feature list \<Rightarrow> feature list \<times> bool" where
  "polygon_loop rt alert n i [] fc = (fc, True)"
| "polygon_loop rt alert n i (p # ps) fc =
     (case parsePolygonString p of
        Inl err \<Rightarrow> (fc, False)
      | Inr coordinates \<Rightarrow>
          if length (hd coordinates) \<ge> 4 then
            (let polygonId = (if n > 1 then identifier' alert @ ''-'' @ show_nat i
                              else identifier' alert)
             in case polygon_feature rt alert polygonId coordinates of
                  None \<Rightarrow> (fc, False)
                | Some polygonFeature \<Rightarrow>
                    (case calculatePolygonCentroid coordinates of
                       None \<Rightarrow> (fc @ [polygonFeature], False)
                     | Some centroid \<Rightarrow>
                         (case center_feature rt alert polygonFeature centroid of
                            None \<Rightarrow> (fc @ [polygonFeature], False)
                          | Some centerFeature \<Rightarrow>
                              polygon_loop rt alert n (Suc i) ps
                                (fc @ [polygonFeature, centerFeature]))))
          else polygon_loop rt alert n (Suc i) ps fc)"

definition polygon_truthy :: "string one_or_many \<Rightarrow> bool" where
  "polygon_truthy pg = (case pg of One p \<Rightarrow> p \<noteq> [] | Many ps \<Rightarrow> True)"

definition polygons_of :: "string one_or_many \<Rightarrow> string list" where
  "polygons_of pg = (case pg of One p \<Rightarrow> [p] | Many ps \<Rightarrow> ps)"

text \<open>
  The end of the loop body: the fallback position when there is no geometry, then the point
  feature. A date that throws there is caught by the outer \<open>catch\<close>: nothing is pushed.
\<close>

definition push_point_feature :: "runtime \<Rightarrow> cap_alert \<Rightarrow> geometry option \<Rightarrow> feature list \<Rightarrow> feature list" where
  "push_point_feature rt alert g fc =
     (case point_feature rt alert (case g of None \<Rightarrow> Point (174, - 41) | Some g' \<Rightarrow> g') of
        None \<Rightarrow> fc
      | Some f \<Rightarrow> fc @ [f])"

text \<open>What one turn of the loop over the alerts does once the alert is parsed.\<close>

definition process_alert :: "runtime \<Rightarrow> cap_alert \<Rightarrow> feature list \<Rightarrow> feature list" where
  "process_alert rt alert fc =
     (if polygon_truthy (polygon (area (info alert))) then
        (let polygons = polygons_of (polygon (area (info alert)))
         in case polygon_loop rt alert (length polygons) 0 polygons fc of
              (fc', True) \<Rightarrow> fc'
            | (fc', False) \<Rightarrow> push_point_feature rt alert None fc')
      else if circle (area (info alert)) \<noteq> [] then
        push_point_feature rt alert
          (map_option (\<lambda>c. Point (center c)) (parseCircleString (circle (area (info alert))))) fc
      else push_point_feature rt alert None fc)"

fun alert_loop :: "runtime \<Rightarrow> string list \<Rightarrow> feature list \<Rightarrow> feature list" where
  "alert_loop rt [] fc = fc"
| "alert_loop rt (alertUrl # rest) fc =
     (case fetch_text rt alertUrl of
        None \<Rightarrow> alert_loop rt rest fc
      | Some capXml \<Rightarrow>
          (case parseXML (xml_parse rt capXml) of
             None \<Rightarrow> alert_loop rt rest fc
           | Some alert \<Rightarrow> alert_loop rt rest (process_alert rt alert fc)))"

text \<open>
  \<open>control\<close>: the feature collection handed to \<open>submit\<close>, or \<open>None\<close> when the fetch of the
  feed itself throws.
\<close>

definition control :: "runtime \<Rightarrow> string \<Rightarrow> feature list option" where
  "control rt rssUrl =
     (case fetch_text rt rssUrl of
        None \<Rightarrow> None
      | Some feedText \<Rightarrow> Some (alert_loop rt (parseFeed feedText) []))"

subsection \<open>A runtime and alerts for the examples\<close>

text \<open>
  The examples need a runtime. This one has no network and no parser (no example fetches or
  parses). Its dates know two texts: \<open>2024-01-01T00:00:00.000Z\<close>, which
  \<open>toISOString\<close> returns as it is, and \<open>not a date\<close>, which is no date and makes
  \<open>toISOString\<close> throw; no example uses another text as a date. The example alerts have no
  onset and no expiry, so \<open>toLocaleString\<close> is not called.
\<close>

definition example_runtime :: runtime where
  "example_runtime =
     \<lparr>fetch_text = (\<lambda>u. None),
      xml_parse = (\<lambda>x. None),
      toISOString = (\<lambda>s. if s = ''2024-01-01T00:00:00.000Z'' then Some s else None),
      toLocaleString = (\<lambda>s. s)\<rparr>"

definition example_alert :: "string \<Rightarrow> string one_or_many \<Rightarrow> cap_alert" where
  "example_alert sentText pg =
     \<lparr>identifier' = ''a1'', sender = ''s'', sent = sentText,
      status = ''Actual'', msgType = ''Alert'', scope = ''Public'',
      info = \<lparr>category = ''Met'', event = ''rainfall'', urgency = [], severity = [],
               certainty = [], senderName = [], headline = ''Heavy rain'', description = [],
               instruction = [], responseType = [], onset = [], expires = [], web = [],
               area = \<lparr>areaDesc = [], polygon = pg, circle = []\<rparr>,
               colorCode = None\<rparr>,
      signature = None\<rparr>"

section \<open>Properties of the geometry parsers\<close>

subsection \<open>Evaluation on concrete texts\<close>

lemmas str_eval = trim_def is_space_def is_digit_def split_ws_def coordPairs_def
lemmas float_eval = parseFloat_def read_sign_def read_fraction_def after_fraction_def
  read_exponent_def scale10_def digits_val_def digit_val_def
lemmas pair_eval = pair_parts_def bad_pair_def classify_pair_def js_le_def js_gt_def

subsection \<open>The loop over the pairs\<close>

lemma scan_pairs_eq:
  "scan_pairs pairs pts bad = (pts @ valid_points pairs, bad @ invalid_pairs pairs)"
  by (induction pairs arbitrary: pts bad)
     (auto simp: valid_points_def invalid_pairs_def split: pair_class.splits)

lemma split_ws_from_no_empty:
  assumes "t \<noteq> [] \<longrightarrow> \<not> is_space (last t)"
      and "if insep then t \<noteq> [] else cur \<noteq> [] \<or> (t \<noteq> [] \<and> \<not> is_space (hd t))"
  shows "[] \<notin> set (split_ws_from insep cur t)"
  using assms
proof (induction t arbitrary: insep cur)
  case Nil
  then show ?case by (auto split: if_splits)
next
  case (Cons c cs)
  show ?case
  proof (cases "is_space c")
    case True
    then have cs: "cs \<noteq> []" using Cons.prems(1) by auto
    then have l: "cs \<noteq> [] \<longrightarrow> \<not> is_space (last cs)" using Cons.prems(1) by auto
    have r: "[] \<notin> set (split_ws_from True [] cs)"
      by (rule Cons.IH[OF l]) (simp add: cs)
    have r2: "[] \<notin> set (split_ws_from True cur cs)"
      by (rule Cons.IH[OF l]) (simp add: cs)
    show ?thesis
    proof (cases insep)
      case True
      then show ?thesis using \<open>is_space c\<close> r2 by simp
    next
      case False
      then have "cur \<noteq> []" using Cons.prems(2) \<open>is_space c\<close> by auto
      then show ?thesis using \<open>is_space c\<close> False r by simp
    qed
  next
    case False
    have l: "cs \<noteq> [] \<longrightarrow> \<not> is_space (last cs)" using Cons.prems(1) by auto
    have "[] \<notin> set (split_ws_from False (c # cur) cs)"
      by (rule Cons.IH[OF l]) simp
    then show ?thesis using False by simp
  qed
qed

lemma trim_hd: "trim s \<noteq> [] \<Longrightarrow> \<not> is_space (hd (trim s))"
proof -
  assume a: "trim s \<noteq> []"
  let ?d = "dropWhile is_space s"
  have d: "?d \<noteq> []"
  proof
    assume e: "?d = []"
    have "trim s = []" unfolding trim_def e by simp
    with a show False by simp
  qed
  have hd: "\<not> is_space (hd ?d)" using d by (rule hd_dropWhile)
  let ?r = "dropWhile is_space (rev ?d)"
  have "rev ?d = takeWhile is_space (rev ?d) @ ?r" by simp
  then have "?d = rev ?r @ rev (takeWhile is_space (rev ?d))"
    by (metis rev_append rev_rev_ident)
  moreover have "rev ?r \<noteq> []" using a by (simp add: trim_def)
  ultimately have "hd ?d = hd (rev ?r)" by (metis hd_append2)
  then show ?thesis using hd by (simp add: trim_def)
qed

lemma trim_last: "trim s \<noteq> [] \<Longrightarrow> \<not> is_space (last (trim s))"
proof -
  assume a: "trim s \<noteq> []"
  let ?r = "dropWhile is_space (rev (dropWhile is_space s))"
  have "?r \<noteq> []" using a by (simp add: trim_def)
  then have "\<not> is_space (hd ?r)" by (rule hd_dropWhile)
  moreover have "last (rev ?r) = hd ?r" using \<open>?r \<noteq> []\<close> by (simp add: last_rev)
  ultimately show ?thesis by (simp add: trim_def)
qed

lemma coordPairs_no_empty: "trim s \<noteq> [] \<Longrightarrow> [] \<notin> set (coordPairs s)"
  unfolding coordPairs_def split_ws_def
  by (rule split_ws_from_no_empty) (auto simp: trim_hd trim_last)

lemma classify_nonempty_not_skipped: "pair \<noteq> [] \<Longrightarrow> classify_pair pair \<noteq> Skipped"
  by (auto simp: classify_pair_def Let_def split: list.splits)

lemma trim_empty: "trim [] = []"
  by (simp add: trim_def)

lemma coordPairs_blank: "trim s = [] \<Longrightarrow> coordPairs s = [[]]"
  by (simp add: coordPairs_def split_ws_def)

lemma classify_empty: "classify_pair [] = Skipped"
  by (simp add: classify_pair_def)


lemma starts_with_single: "starts_with s [c] = (s \<noteq> [] \<and> hd s = c)"
  by (cases s) auto

lemma str_includes_single: "str_includes s [c] = (c \<in> set s)"
  by (induction s) (auto simp: starts_with_single)

lemma split_on_no_sep: "c \<notin> set s \<Longrightarrow> split_on c s = [s]"
  by (induction s) auto

lemma js_range_iff:
  "(\<not> isNaN v \<and> \<not> js_lt v (Fin lo) \<and> \<not> js_gt v (Fin hi)) = (js_le (Fin lo) v \<and> js_le v (Fin hi))"
  by (cases v) (auto simp: js_gt_def js_le_def)

lemma classify_pair_invalid_iff:
  assumes "pair \<noteq> []"
  shows "(classify_pair pair = Invalid) = bad_pair pair"
proof (cases "CHR '','' \<in> set pair")
  case False
  then show ?thesis using assms
    by (simp add: classify_pair_def bad_pair_def pair_parts_def str_includes_single split_on_no_sep)
next
  case True
  then have inc: "str_includes pair '',''" by (simp add: str_includes_single)
  show ?thesis
  proof (cases "\<exists>a b. split_on CHR '','' pair = [a, b]")
    case False
    then have "classify_pair pair = Invalid"
      using assms inc by (auto simp: classify_pair_def split: list.splits)
    moreover have "pair_parts pair = None"
      using False by (auto simp: pair_parts_def split: list.splits)
    ultimately show ?thesis by (simp add: bad_pair_def)
  next
    case True
    then obtain a b where ab: "split_on CHR '','' pair = [a, b]" by blast
    show ?thesis
    proof (cases "trim a = [] \<or> trim b = []")
      case True
      then show ?thesis using assms inc ab
        by (auto simp: classify_pair_def bad_pair_def pair_parts_def)
    next
      case False
      then have pp: "pair_parts pair = Some (parseFloat (trim a), parseFloat (trim b))"
        using ab by (simp add: pair_parts_def)
      have "(classify_pair pair = Invalid) =
            (\<not> (\<not> isNaN (parseFloat (trim a)) \<and> \<not> js_lt (parseFloat (trim a)) (Fin (- 90)) \<and> \<not> js_gt (parseFloat (trim a)) (Fin 90))
             \<or> \<not> (\<not> isNaN (parseFloat (trim b)) \<and> \<not> js_lt (parseFloat (trim b)) (Fin (- 180)) \<and> \<not> js_gt (parseFloat (trim b)) (Fin 180)))"
        using assms inc ab False by (auto simp: classify_pair_def Let_def)
      then show ?thesis
        unfolding js_range_iff bad_pair_def pp by (auto simp: js_le_def)
    qed
  qed
qed

lemma classify_pair_valid_iff:
  "(classify_pair pair = Valid p) =
   (\<exists>lat lon. pair_parts pair = Some (Fin lat, Fin lon)
      \<and> - 90 \<le> lat \<and> lat \<le> 90 \<and> - 180 \<le> lon \<and> lon \<le> 180 \<and> p = (lon, lat))"
proof (cases "pair = []")
  case True
  then show ?thesis by (simp add: classify_pair_def pair_parts_def trim_def)
next
  case ne: False
  show ?thesis
  proof (cases "CHR '','' \<in> set pair")
    case False
    then show ?thesis using ne
      by (simp add: classify_pair_def pair_parts_def str_includes_single split_on_no_sep)
  next
    case True
    then have inc: "str_includes pair '',''" by (simp add: str_includes_single)
    show ?thesis
    proof (cases "\<exists>a b. split_on CHR '','' pair = [a, b]")
      case False
      then have "classify_pair pair = Invalid"
        using ne inc by (auto simp: classify_pair_def split: list.splits)
      moreover have "pair_parts pair = None"
        using False by (auto simp: pair_parts_def split: list.splits)
      ultimately show ?thesis by simp
    next
      case True
      then obtain a b where ab: "split_on CHR '','' pair = [a, b]" by blast
      show ?thesis
      proof (cases "trim a = [] \<or> trim b = []")
        case True
        then show ?thesis using ne inc ab
          by (auto simp: classify_pair_def pair_parts_def)
      next
        case False
        then have pp: "pair_parts pair = Some (parseFloat (trim a), parseFloat (trim b))"
          using ab by (simp add: pair_parts_def)
        show ?thesis
          using ne inc ab False unfolding pp
          by (cases "parseFloat (trim a)"; cases "parseFloat (trim b)")
             (auto simp: classify_pair_def Let_def js_gt_def)
      qed
    qed
  qed
qed


lemma all_valid_points:
  assumes "\<forall>pair \<in> set ps. \<exists>p. classify_pair pair = Valid p"
  shows "length (valid_points ps) = length ps
       \<and> (\<forall>i < length ps. classify_pair (ps ! i) = Valid (valid_points ps ! i))
       \<and> invalid_pairs ps = []"
  using assms
proof (induction ps)
  case Nil
  then show ?case by (simp add: valid_points_def invalid_pairs_def)
next
  case (Cons a ps)
  then obtain p where p: "classify_pair a = Valid p" by auto
  have ih: "length (valid_points ps) = length ps
       \<and> (\<forall>i < length ps. classify_pair (ps ! i) = Valid (valid_points ps ! i))
       \<and> invalid_pairs ps = []" using Cons by simp
  have vp: "valid_points (a # ps) = p # valid_points ps"
    by (simp add: valid_points_def p)
  have ip: "invalid_pairs (a # ps) = invalid_pairs ps"
    by (simp add: invalid_pairs_def p)
  show ?case unfolding vp ip using ih p
    by (auto simp: nth_Cons split: nat.splits)
qed

lemma invalid_pairs_bad:
  "invalid_pairs ps = filter (\<lambda>pair. pair \<noteq> [] \<and> bad_pair pair) ps"
proof -
  have "\<And>pair. (classify_pair pair = Invalid) = (pair \<noteq> [] \<and> bad_pair pair)"
    using classify_pair_invalid_iff classify_empty by (metis pair_class.distinct(1))
  then show ?thesis by (simp add: invalid_pairs_def)
qed

lemma parsePolygonString_eq:
  "parsePolygonString s =
     (if s = [] then Inl EmptyOrInvalid
      else if trim s = [] then Inl EmptyAfterTrim
      else if invalid_pairs (coordPairs s) \<noteq> [] then Inl (InvalidPairs (invalid_pairs (coordPairs s)))
      else if length (valid_points (coordPairs s)) < 3
        then Inl (InsufficientPoints (length (valid_points (coordPairs s))))
      else Inr [close_ring (valid_points (coordPairs s))])"
  by (simp add: parsePolygonString_def scan_pairs_eq)

lemma close_ring_props:
  assumes "pts \<noteq> []"
  shows "hd (close_ring pts) = last (close_ring pts)"
    and "length (close_ring pts) = (if hd pts = last pts then length pts else length pts + 1)"
    and "\<And>i. i < length pts \<Longrightarrow> close_ring pts ! i = pts ! i"
  using assms by (auto simp: close_ring_def prod_eq_iff nth_append)

subsection \<open>parseFloat reads a prefix\<close>

lemma dropWhile_none: "(\<forall>c \<in> set x. \<not> P c) \<Longrightarrow> dropWhile P x = x"
  by (cases x) auto

lemma trim_id: "(\<forall>c \<in> set x. \<not> is_space c) \<Longrightarrow> trim x = x"
  by (simp add: trim_def dropWhile_none)

lemma digit_not_space: "is_digit c \<Longrightarrow> \<not> is_space c"
  by (auto simp: is_digit_def is_space_def)

lemma digit_chars: "is_digit c \<Longrightarrow> c \<noteq> CHR ''-'' \<and> c \<noteq> CHR ''+'' \<and> c \<noteq> CHR ''I'' \<and> c \<noteq> CHR '',''"
  by (auto simp: is_digit_def)

lemma takeWhile_digits:
  "(\<forall>c \<in> set ds. is_digit c) \<Longrightarrow> r = [] \<or> \<not> is_digit (hd r) \<Longrightarrow>
     takeWhile is_digit (ds @ r) = ds \<and> dropWhile is_digit (ds @ r) = r"
  by (cases r) (auto simp: takeWhile_append1 dropWhile_append)

lemma parseFloat_decimal_prefix:
  assumes ip: "ip \<noteq> []" "\<forall>c \<in> set ip. is_digit c"
      and fp: "\<forall>c \<in> set fp. is_digit c"
      and junk: "junk = [] \<or> hd junk \<notin> set ''0123456789eE''"
  shows "parseFloat (ip @ ''.'' @ fp @ junk)
         = Fin (of_nat (digits_val ip) + of_nat (digits_val fp) / 10 ^ length fp)"
proof -
  let ?s = "ip @ ''.'' @ fp @ junk"
  obtain d ds where ipc: "ip = d # ds" using ip(1) by (cases ip) auto
  have d: "is_digit d" using ip(2) ipc by simp
  have sp: "dropWhile is_space ?s = ?s"
    using d digit_not_space by (simp add: ipc)
  have sg: "read_sign ?s = (False, ?s)"
    using digit_chars[OF d] by (simp add: read_sign_def ipc)
  have inf: "\<not> starts_with ?s ''Infinity''"
    using digit_chars[OF d] by (simp add: ipc)
  have nd: "\<not> is_digit CHR ''.''" by (simp add: is_digit_def)
  have tw: "takeWhile is_digit ?s = ip" "dropWhile is_digit ?s = ''.'' @ fp @ junk"
    using takeWhile_digits[of ip "''.'' @ fp @ junk"] ip(2) nd by simp_all
  have jd: "junk = [] \<or> \<not> is_digit (hd junk)"
    using junk by (auto simp: is_digit_def)
  have fr: "read_fraction (''.'' @ fp @ junk) = fp" "after_fraction (''.'' @ fp @ junk) = junk"
    using takeWhile_digits[of fp junk] fp jd by (simp_all add: read_fraction_def after_fraction_def)
  have ex: "read_exponent junk = 0"
    using junk by (cases junk) (auto simp: read_exponent_def)
  show ?thesis
    unfolding parseFloat_def sp sg using inf ip(1)
    by (simp add: tw fr ex scale10_def del: append.simps append_assoc)
qed

lemma split_on_append: "c \<notin> set a \<Longrightarrow> split_on c (a @ c # b) = a # split_on c b"
  by (induction a) auto

subsection \<open>The ring of a well-formed polygon string\<close>

text \<open>
  Claim C5. For a polygon string whose pairs are all valid (none is invalid in the
  specification's sense) and that has at least three of them, \<open>parsePolygonString\<close> returns
  one ring; the ring is closed (its first and last positions are equal); its positions are
  \<open>[lon, lat]\<close>, the pair at index \<open>i\<close> giving the position at index \<open>i\<close>; and its length is
  the number of pairs when the first and the last pair give the same position (the input was
  closed already), one more otherwise.
\<close>

theorem parsePolygonString_closed_ring:
  assumes valid: "\<forall>pair \<in> set (coordPairs s). \<not> bad_pair pair"
      and three: "3 \<le> length (coordPairs s)"
  shows "\<exists>ring. parsePolygonString s = Inr [ring]
           \<and> hd ring = last ring
           \<and> length ring =
               (if classify_pair (hd (coordPairs s)) = classify_pair (last (coordPairs s))
                then length (coordPairs s) else length (coordPairs s) + 1)
           \<and> (\<forall>i < length (coordPairs s). \<exists>lat lon.
                 pair_parts (coordPairs s ! i) = Some (Fin lat, Fin lon) \<and> ring ! i = (lon, lat))"
proof -
  let ?toks = "coordPairs s"
  let ?pts = "valid_points ?toks"
  have tne: "trim s \<noteq> []"
    using three coordPairs_blank[of s] by auto
  then have sne: "s \<noteq> []" by (auto simp: trim_def)
  have ne: "[] \<notin> set ?toks" using tne by (rule coordPairs_no_empty)
  have allv: "\<forall>pair \<in> set ?toks. \<exists>p. classify_pair pair = Valid p"
  proof
    fix pair assume m: "pair \<in> set ?toks"
    then have "pair \<noteq> []" using ne by auto
    moreover have "\<not> bad_pair pair" using valid m by simp
    ultimately have "classify_pair pair \<noteq> Invalid" "classify_pair pair \<noteq> Skipped"
      using classify_pair_invalid_iff classify_nonempty_not_skipped by auto
    then show "\<exists>p. classify_pair pair = Valid p" by (cases "classify_pair pair") auto
  qed
  note av = all_valid_points[OF allv]
  have len: "length ?pts = length ?toks" using av by simp
  have inv: "invalid_pairs ?toks = []" using av by simp
  have nth: "\<And>i. i < length ?toks \<Longrightarrow> classify_pair (?toks ! i) = Valid (?pts ! i)"
    using av by simp
  have pne: "?pts \<noteq> []" using len three by auto
  have tokne: "?toks \<noteq> []" using three by auto
  have res: "parsePolygonString s = Inr [close_ring ?pts]"
    using sne tne inv len three by (simp add: parsePolygonString_eq)
  have hd_eq: "classify_pair (hd ?toks) = Valid (hd ?pts)"
    using nth[of 0] tokne pne by (simp add: hd_conv_nth)
  have last_eq: "classify_pair (last ?toks) = Valid (last ?pts)"
    using nth[of "length ?toks - 1"] tokne pne len by (simp add: last_conv_nth)
  have closed: "(classify_pair (hd ?toks) = classify_pair (last ?toks)) = (hd ?pts = last ?pts)"
    unfolding hd_eq last_eq by simp
  have pos: "\<forall>i < length ?toks. \<exists>lat lon.
      pair_parts (?toks ! i) = Some (Fin lat, Fin lon) \<and> close_ring ?pts ! i = (lon, lat)"
  proof (intro allI impI)
    fix i assume i: "i < length ?toks"
    from nth[OF i] obtain lat lon where
      "pair_parts (?toks ! i) = Some (Fin lat, Fin lon)" "?pts ! i = (lon, lat)"
      unfolding classify_pair_valid_iff by blast
    moreover have "close_ring ?pts ! i = ?pts ! i"
      using close_ring_props(3)[OF pne] i len by simp
    ultimately show "\<exists>lat lon. pair_parts (?toks ! i) = Some (Fin lat, Fin lon)
        \<and> close_ring ?pts ! i = (lon, lat)" by auto
  qed
  show ?thesis
    apply (rule exI[of _ "close_ring ?pts"])
    using res close_ring_props(1)[OF pne] close_ring_props(2)[OF pne] closed len pos
    by simp
qed

theorem parsePolygonString_closed_ring_witness:
  "coordPairs ''1,2 3,4 5,6'' = [''1,2'', ''3,4'', ''5,6'']
   \<and> \<not> bad_pair ''1,2'' \<and> \<not> bad_pair ''3,4'' \<and> \<not> bad_pair ''5,6''
   \<and> (\<exists>ring. parsePolygonString ''1,2 3,4 5,6'' = Inr [ring]
         \<and> hd ring = last ring \<and> length ring = 4
         \<and> ring ! 0 = (2, 1) \<and> ring ! 1 = (4, 3) \<and> ring ! 2 = (6, 5))"
proof -
  have t: "coordPairs ''1,2 3,4 5,6'' = [''1,2'', ''3,4'', ''5,6'']"
    by (simp add: str_eval)
  have b: "\<not> bad_pair ''1,2''" "\<not> bad_pair ''3,4''" "\<not> bad_pair ''5,6''"
    by (simp_all add: str_eval float_eval pair_eval)
  have h1: "\<forall>pair \<in> set (coordPairs ''1,2 3,4 5,6''). \<not> bad_pair pair"
    unfolding t using b by simp
  have h2: "3 \<le> length (coordPairs ''1,2 3,4 5,6'')" unfolding t by simp
  have c: "classify_pair ''1,2'' \<noteq> classify_pair ''5,6''"
    by (simp add: str_eval float_eval pair_eval)
  have p: "pair_parts ''1,2'' = Some (Fin 1, Fin 2)" "pair_parts ''3,4'' = Some (Fin 3, Fin 4)"
      "pair_parts ''5,6'' = Some (Fin 5, Fin 6)"
    by (simp_all add: str_eval float_eval pair_eval)
  from parsePolygonString_closed_ring[OF h1 h2] obtain ring where
    r: "parsePolygonString ''1,2 3,4 5,6'' = Inr [ring]" "hd ring = last ring"
       "length ring = 4"
       "\<forall>i<3. \<exists>lat lon. pair_parts ([''1,2'', ''3,4'', ''5,6''] ! i) = Some (Fin lat, Fin lon) \<and> ring ! i = (lon, lat)"
    unfolding t using c by auto
  have "ring ! 0 = (2, 1)" using r(4)[rule_format, of 0] p by simp
  moreover have "ring ! 1 = (4, 3)" using r(4)[rule_format, of 1] p by simp
  moreover have "ring ! 2 = (6, 5)" using r(4)[rule_format, of 2] p by simp
  ultimately show ?thesis using t b r by blast
qed

subsection \<open>Invalid polygon strings\<close>

text \<open>
  Claim C6, as amended. With \<open>bad\<close> the pairs of the string that are invalid (a component
  missing, a component not numeric, latitude or longitude out of range): when there is one,
  \<open>parsePolygonString\<close> throws the invalid-pairs error, whose message lists the first three
  of them and ends with an ellipsis when there are more; when there is none and fewer than
  three positions were read from a string that is not blank, it throws the
  insufficient-points error; a blank string (empty, or white space only) throws an
  empty-string error of its own; in all these cases it throws. When it does return rings, no
  pair was invalid and every pair of the string is a position of the one ring returned: no
  pair is dropped.
\<close>

theorem parsePolygonString_rejects:
  fixes s :: string
  defines "bad \<equiv> filter (\<lambda>pair. pair \<noteq> [] \<and> bad_pair pair) (coordPairs s)"
  shows "(bad \<noteq> [] \<longrightarrow>
            parsePolygonString s = Inl (InvalidPairs bad)
            \<and> error_message (InvalidPairs bad) =
                ''Invalid coordinate pairs: '' @ join '', '' (take 3 bad)
                  @ (if length bad > 3 then ''...'' else []))
       \<and> (bad = [] \<and> trim s \<noteq> [] \<and> length (valid_points (coordPairs s)) < 3 \<longrightarrow>
            parsePolygonString s = Inl (InsufficientPoints (length (valid_points (coordPairs s)))))
       \<and> (trim s = [] \<longrightarrow>
            parsePolygonString s = Inl (if s = [] then EmptyOrInvalid else EmptyAfterTrim))
       \<and> (bad \<noteq> [] \<or> length (valid_points (coordPairs s)) < 3 \<longrightarrow>
            (\<exists>e. parsePolygonString s = Inl e))
       \<and> (\<forall>rings. parsePolygonString s = Inr rings \<longrightarrow>
            bad = []
            \<and> (\<exists>ring. rings = [ring] \<and> length (coordPairs s) \<le> length ring
                 \<and> (\<forall>i < length (coordPairs s). classify_pair (coordPairs s ! i) = Valid (ring ! i))))"
proof -
  let ?toks = "coordPairs s"
  have bad: "bad = invalid_pairs ?toks" by (simp add: bad_def invalid_pairs_bad)
  have blank: "trim s = [] \<Longrightarrow> invalid_pairs ?toks = []"
    by (simp add: coordPairs_blank invalid_pairs_def classify_empty)
  have empty: "s = [] \<Longrightarrow> trim s = []" by (simp add: trim_def)
  have a: "bad \<noteq> [] \<longrightarrow> parsePolygonString s = Inl (InvalidPairs bad)"
  proof
    assume "bad \<noteq> []"
    then have i: "invalid_pairs ?toks \<noteq> []" unfolding bad .
    then have "trim s \<noteq> []" using blank by blast
    moreover from this have "s \<noteq> []" using empty by blast
    ultimately show "parsePolygonString s = Inl (InvalidPairs bad)"
      unfolding bad parsePolygonString_eq using i by simp
  qed
  have b: "bad = [] \<and> trim s \<noteq> [] \<and> length (valid_points ?toks) < 3 \<longrightarrow>
            parsePolygonString s = Inl (InsufficientPoints (length (valid_points ?toks)))"
  proof
    assume h: "bad = [] \<and> trim s \<noteq> [] \<and> length (valid_points ?toks) < 3"
    then have "invalid_pairs ?toks = []" unfolding bad by simp
    moreover have "s \<noteq> []" using h empty by blast
    ultimately show "parsePolygonString s = Inl (InsufficientPoints (length (valid_points ?toks)))"
      unfolding parsePolygonString_eq using h by simp
  qed
  have c: "bad \<noteq> [] \<or> length (valid_points ?toks) < 3 \<longrightarrow> (\<exists>e. parsePolygonString s = Inl e)"
    unfolding bad parsePolygonString_eq by simp
  have d: "\<forall>rings. parsePolygonString s = Inr rings \<longrightarrow>
            bad = []
            \<and> (\<exists>ring. rings = [ring] \<and> length ?toks \<le> length ring
                 \<and> (\<forall>i < length ?toks. classify_pair (?toks ! i) = Valid (ring ! i)))"
  proof (intro allI impI)
    fix rings assume r: "parsePolygonString s = Inr rings"
    then have sne: "s \<noteq> []" and tne: "trim s \<noteq> []" and inv: "invalid_pairs ?toks = []"
      and three: "\<not> length (valid_points ?toks) < 3"
      and rings: "rings = [close_ring (valid_points ?toks)]"
      by (auto simp: parsePolygonString_eq split: if_splits)
    have ne: "[] \<notin> set ?toks" using tne by (rule coordPairs_no_empty)
    have allv: "\<forall>pair \<in> set ?toks. \<exists>p. classify_pair pair = Valid p"
    proof
      fix pair assume m: "pair \<in> set ?toks"
      then have "pair \<noteq> []" using ne by auto
      then have "classify_pair pair \<noteq> Skipped" by (rule classify_nonempty_not_skipped)
      moreover have "classify_pair pair \<noteq> Invalid"
        using inv m by (auto simp: invalid_pairs_def filter_empty_conv)
      ultimately show "\<exists>p. classify_pair pair = Valid p" by (cases "classify_pair pair") auto
    qed
    note av = all_valid_points[OF allv]
    have pne: "valid_points ?toks \<noteq> []" using three by auto
    have "length ?toks \<le> length (close_ring (valid_points ?toks))"
      using av close_ring_props(2)[OF pne] by simp
    moreover have "\<forall>i < length ?toks. classify_pair (?toks ! i) = Valid (close_ring (valid_points ?toks) ! i)"
      using av close_ring_props(3)[OF pne] by simp
    ultimately show "bad = []
            \<and> (\<exists>ring. rings = [ring] \<and> length ?toks \<le> length ring
                 \<and> (\<forall>i < length ?toks. classify_pair (?toks ! i) = Valid (ring ! i)))"
      unfolding bad using rings inv by simp
  qed
  have m: "error_message (InvalidPairs bad) =
                ''Invalid coordinate pairs: '' @ join '', '' (take 3 bad)
                  @ (if length bad > 3 then ''...'' else [])" by simp
  have k: "trim s = [] \<longrightarrow>
            parsePolygonString s = Inl (if s = [] then EmptyOrInvalid else EmptyAfterTrim)"
    unfolding parsePolygonString_eq by simp
  show ?thesis using a b c d m k by blast
qed

theorem parsePolygonString_rejects_witness:
  "parsePolygonString ''1,1 x 91,0 0,181 a,b''
     = Inl (InvalidPairs [''x'', ''91,0'', ''0,181'', ''a,b''])
   \<and> error_message (InvalidPairs [''x'', ''91,0'', ''0,181'', ''a,b''])
       = ''Invalid coordinate pairs: x, 91,0, 0,181...''
   \<and> parsePolygonString ''1,1 2,2'' = Inl (InsufficientPoints 2)
   \<and> error_message (InsufficientPoints 2) = ''Insufficient valid points: 2 (minimum 3 required)''"
proof -
  have t1: "coordPairs ''1,1 x 91,0 0,181 a,b'' = [''1,1'', ''x'', ''91,0'', ''0,181'', ''a,b'']"
    by (simp add: str_eval)
  have b1: "\<not> bad_pair ''1,1''" "bad_pair ''x''" "bad_pair ''91,0''" "bad_pair ''0,181''" "bad_pair ''a,b''"
    by (simp_all add: str_eval float_eval pair_eval)
  have f1: "filter (\<lambda>pair. pair \<noteq> [] \<and> bad_pair pair) (coordPairs ''1,1 x 91,0 0,181 a,b'')
      = [''x'', ''91,0'', ''0,181'', ''a,b'']"
    unfolding t1 using b1 by simp
  have t2: "coordPairs ''1,1 2,2'' = [''1,1'', ''2,2'']"
    by (simp add: str_eval)
  have b2: "\<not> bad_pair ''2,2''"
    by (simp add: str_eval float_eval pair_eval)
  have f2: "filter (\<lambda>pair. pair \<noteq> [] \<and> bad_pair pair) (coordPairs ''1,1 2,2'') = []"
    unfolding t2 using b1(1) b2 by simp
  have v2: "valid_points (coordPairs ''1,1 2,2'') = [(1, 1), (2, 2)]"
    unfolding t2 by (simp add: valid_points_def str_eval float_eval pair_eval)
  have n2: "trim ''1,1 2,2'' \<noteq> []" by (simp add: str_eval)
  have r1: "parsePolygonString ''1,1 x 91,0 0,181 a,b''
     = Inl (InvalidPairs [''x'', ''91,0'', ''0,181'', ''a,b''])
     \<and> error_message (InvalidPairs [''x'', ''91,0'', ''0,181'', ''a,b''])
       = ''Invalid coordinate pairs: x, 91,0, 0,181...''"
    using parsePolygonString_rejects[of "''1,1 x 91,0 0,181 a,b''"] unfolding f1 by simp
  have r2: "parsePolygonString ''1,1 2,2'' = Inl (InsufficientPoints 2)"
    using parsePolygonString_rejects[of "''1,1 2,2''"] n2 unfolding f2 v2 by simp
  have m: "error_message (InsufficientPoints 2) = ''Insufficient valid points: 2 (minimum 3 required)''"
    by (simp add: show_nat.simps)
  show ?thesis using r1 r2 m by simp
qed

text \<open>
  The claim as stated, an insufficient-points error for every string with fewer than three
  valid positions: the empty string has none, and the error it throws is the empty-string
  one.
\<close>

theorem parsePolygonString_blank_counterexample:
  "length (valid_points (coordPairs [])) = 0
   \<and> parsePolygonString [] \<noteq> Inl (InsufficientPoints 0)
   \<and> parsePolygonString [] = Inl EmptyOrInvalid
   \<and> error_message EmptyOrInvalid = ''Empty or invalid polygon string''"
  by (simp add: parsePolygonString_def valid_points_def coordPairs_blank trim_empty classify_empty)

subsection \<open>Trailing characters after a number\<close>

text \<open>
  Claim C10. A pair is accepted when each component starts with a decimal number in range,
  whatever follows the number: for a latitude text made of digits, a point, digits and then
  any characters that do not continue the number (no digit, no \<open>e\<close> or \<open>E\<close> first; no
  comma and no white space), and a longitude text that \<open>parseFloat\<close> reads as a value in
  range, the pair is a valid position with the latitude the digits give, it is not reported
  as invalid, and \<open>parseFloat\<close> gives the same number as without the trailing characters.
\<close>

theorem parsePolygonString_accepts_numeric_prefix:
  assumes ip: "ip \<noteq> []" "\<forall>c \<in> set ip. is_digit c"
      and fp: "\<forall>c \<in> set fp. is_digit c"
      and junk: "junk = [] \<or> hd junk \<notin> set ''0123456789eE''"
                "\<forall>c \<in> set junk. c \<noteq> CHR '','' \<and> \<not> is_space c"
      and lat: "lat = of_nat (digits_val ip) + of_nat (digits_val fp) / 10 ^ length fp" "lat \<le> 90"
      and lon: "CHR '','' \<notin> set lonStr" "trim lonStr \<noteq> []"
               "parseFloat (trim lonStr) = Fin lon" "- 180 \<le> lon" "lon \<le> 180"
  shows "classify_pair (ip @ ''.'' @ fp @ junk @ '','' @ lonStr) = Valid (lon, lat)
       \<and> \<not> bad_pair (ip @ ''.'' @ fp @ junk @ '','' @ lonStr)
       \<and> parseFloat (ip @ ''.'' @ fp @ junk) = parseFloat (ip @ ''.'' @ fp)"
proof -
  let ?a = "ip @ ''.'' @ fp @ junk"
  let ?pair = "?a @ '','' @ lonStr"
  have c1: "CHR '','' \<notin> set ip" "CHR '','' \<notin> set fp" "CHR '','' \<notin> set junk"
    using ip(2) fp junk(2) digit_chars by blast+
  have nocomma: "CHR '','' \<notin> set ?a"
    using c1 by simp
  have dot: "\<not> is_space CHR ''.''" by (simp add: is_space_def)
  have s1: "\<forall>c \<in> set ip. \<not> is_space c" "\<forall>c \<in> set fp. \<not> is_space c"
      "\<forall>c \<in> set junk. \<not> is_space c"
    using ip(2) fp junk(2) digit_not_space by blast+
  have nospace: "\<forall>c \<in> set ?a. \<not> is_space c"
    using s1 dot by auto
  have "split_on CHR '','' (?a @ CHR '','' # lonStr) = ?a # split_on CHR '','' lonStr"
    using nocomma by (rule split_on_append)
  then have split: "split_on CHR '','' ?pair = [?a, lonStr]"
    using lon(1) by (simp add: split_on_no_sep)
  have ta: "trim ?a = ?a" using nospace by (rule trim_id)
  have ane: "?a \<noteq> []" using ip(1) by simp
  have pa: "parseFloat ?a = Fin lat"
    using parseFloat_decimal_prefix[OF ip fp junk(1)] lat(1) by simp
  have pa0: "parseFloat (ip @ ''.'' @ fp) = Fin lat"
    using parseFloat_decimal_prefix[OF ip fp, of "[]"] lat(1) by simp
  have lat0: "0 \<le> lat" unfolding lat(1) by simp
  have pp: "pair_parts ?pair = Some (Fin lat, Fin lon)"
    unfolding pair_parts_def split using ta ane lon(2) pa lon(3) by simp
  have v: "classify_pair ?pair = Valid (lon, lat)"
    unfolding classify_pair_valid_iff using pp lat(2) lat0 lon(4,5) by simp
  have pne: "?pair \<noteq> []" using ip(1) by simp
  have nb: "\<not> bad_pair ?pair"
    using classify_pair_invalid_iff[OF pne] v by simp
  show ?thesis using v nb pa pa0 by simp
qed

theorem parsePolygonString_accepts_numeric_prefix_witness:
  "parseFloat ''10.5abc'' = parseFloat ''10.5''
   \<and> classify_pair ''10.5abc,20'' = Valid (20, 21 / 2)
   \<and> \<not> bad_pair ''10.5abc,20''
   \<and> parsePolygonString ''10.5abc,20 11,21 12,22''
       = Inr [[(20, 21 / 2), (21, 11), (22, 12), (20, 21 / 2)]]"
proof -
  have h: "''10'' \<noteq> []" "\<forall>c \<in> set ''10''. is_digit c" "\<forall>c \<in> set ''5''. is_digit c"
     "''abc'' = [] \<or> hd ''abc'' \<notin> set ''0123456789eE''"
     "\<forall>c \<in> set ''abc''. c \<noteq> CHR '','' \<and> \<not> is_space c"
     "(21 / 2 :: rat) = of_nat (digits_val ''10'') + of_nat (digits_val ''5'') / 10 ^ length ''5''"
     "(21 / 2 :: rat) \<le> 90"
     "CHR '','' \<notin> set ''20''" "trim ''20'' \<noteq> []"
     "parseFloat (trim ''20'') = Fin 20" "- 180 \<le> (20 :: rat)" "(20 :: rat) \<le> 180"
    by (simp_all add: str_eval float_eval)
  have p: "parsePolygonString ''10.5abc,20 11,21 12,22''
       = Inr [[(20, 21 / 2), (21, 11), (22, 12), (20, 21 / 2)]]"
    by (simp add: parsePolygonString_def close_ring_def str_eval float_eval pair_eval)
  show ?thesis
    using parsePolygonString_accepts_numeric_prefix[OF h] p by simp
qed

subsection \<open>parseCircleString\<close>

lemma parseCircleString_eq:
  "parseCircleString s =
     (if s = [] then None
      else case circle_parts s of
        None \<Rightarrow> None
      | Some (latStr, lonStr, rStr) \<Rightarrow>
          if js_le (Fin (- 90)) (parseFloat latStr) \<and> js_le (parseFloat latStr) (Fin 90)
             \<and> js_le (Fin (- 180)) (parseFloat lonStr) \<and> js_le (parseFloat lonStr) (Fin 180)
             \<and> js_gt (parseFloat rStr) (Fin 0)
          then Some \<lparr>center = (fin (parseFloat lonStr), fin (parseFloat latStr)),
                      radius = parseFloat rStr\<rparr>
          else None)"
proof (cases "s = []")
  case True
  then show ?thesis by (simp add: parseCircleString_def)
next
  case ne: False
  have nan: "\<And>r. js_gt r (Fin 0) \<Longrightarrow> \<not> isNaN r"
    by (case_tac r) (auto simp: js_gt_def)
  have two: "\<And>xs :: string list. (\<exists>a b r. xs = a # b # r) \<or> xs = [] \<or> (\<exists>a. xs = [a])"
    by (case_tac xs; case_tac "tl xs") auto
  let ?parts = "split_on CHR '' '' (trim s)"
  from two[of ?parts] show ?thesis
  proof (elim disjE exE)
    fix p0 p1 rest assume parts: "?parts = p0 # p1 # rest"
    from two[of "split_on CHR '','' p0"] show ?thesis
    proof (elim disjE exE)
      fix latStr lonStr rest' assume ll: "split_on CHR '','' p0 = latStr # lonStr # rest'"
      show ?thesis
      proof (cases "latStr \<noteq> [] \<and> lonStr \<noteq> []")
        case True
        then have cp: "circle_parts s = Some (latStr, lonStr, p1)"
          by (simp add: circle_parts_def parts ll)
        show ?thesis
          using ne True nan[of "parseFloat p1"]
          by (auto simp: cp parseCircleString_def parts ll Let_def js_ge_def js_le_def)
      next
        case False
        then have cp: "circle_parts s = None"
          by (auto simp: circle_parts_def parts ll)
        show ?thesis
          using ne False by (auto simp: cp parseCircleString_def parts ll)
      qed
    next
      assume e: "split_on CHR '','' p0 = []"
      show ?thesis using ne by (simp add: parseCircleString_def circle_parts_def parts e)
    next
      fix a assume e: "split_on CHR '','' p0 = [a]"
      show ?thesis using ne by (simp add: parseCircleString_def circle_parts_def parts e)
    qed
  next
    assume e: "?parts = []"
    show ?thesis using ne by (simp add: parseCircleString_def circle_parts_def e)
  next
    fix a assume e: "?parts = [a]"
    show ?thesis using ne by (simp add: parseCircleString_def circle_parts_def e)
  qed
qed

lemma js_le_range:
  "js_le (Fin lo) v \<and> js_le v (Fin hi) \<Longrightarrow> \<exists>x. v = Fin x \<and> lo \<le> x \<and> x \<le> hi"
  by (cases v) (auto simp: js_le_def)

text \<open>
  Claim C7. \<open>parseCircleString\<close> is a total function with an optional result: it never
  throws. It returns null for the empty string; for a string that does not have the shape
  \<open>lat,lon radius\<close> (no second part after a space, or a coordinate text missing); for a radius
  that is not numeric or is at most 0; and for a latitude or a longitude that is not numeric
  or out of range. When it returns a circle, the two coordinates are finite and in range, the
  radius is above 0, and the center is \<open>[lon, lat]\<close>. On \<open>-41.0,174.0 50\<close> it returns the
  center \<open>[174, -41]\<close> with radius 50.
\<close>

theorem parseCircleString_null_cases:
  "(s = [] \<longrightarrow> parseCircleString s = None)
   \<and> (circle_parts s = None \<longrightarrow> parseCircleString s = None)
   \<and> (\<forall>latStr lonStr rStr. circle_parts s = Some (latStr, lonStr, rStr) \<longrightarrow>
        (isNaN (parseFloat rStr) \<or> js_le (parseFloat rStr) (Fin 0)
         \<or> isNaN (parseFloat latStr) \<or> isNaN (parseFloat lonStr)
         \<or> js_lt (parseFloat latStr) (Fin (- 90)) \<or> js_gt (parseFloat latStr) (Fin 90)
         \<or> js_lt (parseFloat lonStr) (Fin (- 180)) \<or> js_gt (parseFloat lonStr) (Fin 180)
         \<longrightarrow> parseCircleString s = None))
   \<and> (\<forall>c. parseCircleString s = Some c \<longrightarrow>
        (\<exists>latStr lonStr rStr lat lon.
            circle_parts s = Some (latStr, lonStr, rStr)
          \<and> parseFloat latStr = Fin lat \<and> - 90 \<le> lat \<and> lat \<le> 90
          \<and> parseFloat lonStr = Fin lon \<and> - 180 \<le> lon \<and> lon \<le> 180
          \<and> js_gt (parseFloat rStr) (Fin 0)
          \<and> c = \<lparr>center = (lon, lat), radius = parseFloat rStr\<rparr>))
   \<and> parseCircleString ''-41.0,174.0 50'' = Some \<lparr>center = (174, - 41), radius = Fin 50\<rparr>"
proof -
  have a: "s = [] \<longrightarrow> parseCircleString s = None" by (simp add: parseCircleString_eq)
  have b: "circle_parts s = None \<longrightarrow> parseCircleString s = None" by (simp add: parseCircleString_eq)
  have gt0: "\<And>r. js_gt r (Fin 0) \<Longrightarrow> \<not> isNaN r \<and> \<not> js_le r (Fin 0)"
    by (case_tac r) (auto simp: js_gt_def js_le_def)
  have c: "\<forall>latStr lonStr rStr. circle_parts s = Some (latStr, lonStr, rStr) \<longrightarrow>
        (isNaN (parseFloat rStr) \<or> js_le (parseFloat rStr) (Fin 0)
         \<or> isNaN (parseFloat latStr) \<or> isNaN (parseFloat lonStr)
         \<or> js_lt (parseFloat latStr) (Fin (- 90)) \<or> js_gt (parseFloat latStr) (Fin 90)
         \<or> js_lt (parseFloat lonStr) (Fin (- 180)) \<or> js_gt (parseFloat lonStr) (Fin 180)
         \<longrightarrow> parseCircleString s = None)"
  proof (intro allI impI)
    fix latStr lonStr rStr
    assume cp: "circle_parts s = Some (latStr, lonStr, rStr)"
    assume bad: "isNaN (parseFloat rStr) \<or> js_le (parseFloat rStr) (Fin 0)
         \<or> isNaN (parseFloat latStr) \<or> isNaN (parseFloat lonStr)
         \<or> js_lt (parseFloat latStr) (Fin (- 90)) \<or> js_gt (parseFloat latStr) (Fin 90)
         \<or> js_lt (parseFloat lonStr) (Fin (- 180)) \<or> js_gt (parseFloat lonStr) (Fin 180)"
    have "\<not> (js_le (Fin (- 90)) (parseFloat latStr) \<and> js_le (parseFloat latStr) (Fin 90)
             \<and> js_le (Fin (- 180)) (parseFloat lonStr) \<and> js_le (parseFloat lonStr) (Fin 180)
             \<and> js_gt (parseFloat rStr) (Fin 0))"
    proof
      assume ok: "js_le (Fin (- 90)) (parseFloat latStr) \<and> js_le (parseFloat latStr) (Fin 90)
             \<and> js_le (Fin (- 180)) (parseFloat lonStr) \<and> js_le (parseFloat lonStr) (Fin 180)
             \<and> js_gt (parseFloat rStr) (Fin 0)"
      then have o1: "js_le (Fin (- 90)) (parseFloat latStr) \<and> js_le (parseFloat latStr) (Fin 90)"
        and o2: "js_le (Fin (- 180)) (parseFloat lonStr) \<and> js_le (parseFloat lonStr) (Fin 180)"
        by simp_all
      from js_le_range[OF o1] obtain x where x: "parseFloat latStr = Fin x" "- 90 \<le> x" "x \<le> 90"
        by blast
      from js_le_range[OF o2] obtain y where y: "parseFloat lonStr = Fin y" "- 180 \<le> y" "y \<le> 180"
        by blast
      note xy = x y
      have "\<not> isNaN (parseFloat rStr) \<and> \<not> js_le (parseFloat rStr) (Fin 0)"
        using ok gt0 by blast
      then show False using bad xy by (auto simp: js_gt_def)
    qed
    then show "parseCircleString s = None"
      unfolding parseCircleString_eq cp by auto
  qed
  have d: "\<forall>c. parseCircleString s = Some c \<longrightarrow>
        (\<exists>latStr lonStr rStr lat lon.
            circle_parts s = Some (latStr, lonStr, rStr)
          \<and> parseFloat latStr = Fin lat \<and> - 90 \<le> lat \<and> lat \<le> 90
          \<and> parseFloat lonStr = Fin lon \<and> - 180 \<le> lon \<and> lon \<le> 180
          \<and> js_gt (parseFloat rStr) (Fin 0)
          \<and> c = \<lparr>center = (lon, lat), radius = parseFloat rStr\<rparr>)"
  proof (intro allI impI)
    fix c assume r: "parseCircleString s = Some c"
    then obtain latStr lonStr rStr where cp: "circle_parts s = Some (latStr, lonStr, rStr)"
      unfolding parseCircleString_eq by (auto split: if_splits option.splits)
    from r have ok: "js_le (Fin (- 90)) (parseFloat latStr) \<and> js_le (parseFloat latStr) (Fin 90)"
        "js_le (Fin (- 180)) (parseFloat lonStr) \<and> js_le (parseFloat lonStr) (Fin 180)"
        "js_gt (parseFloat rStr) (Fin 0)"
      and c: "c = \<lparr>center = (fin (parseFloat lonStr), fin (parseFloat latStr)), radius = parseFloat rStr\<rparr>"
      unfolding parseCircleString_eq cp by (auto split: if_splits)
    from js_le_range[OF ok(1)] obtain x where x: "parseFloat latStr = Fin x" "- 90 \<le> x" "x \<le> 90"
      by blast
    from js_le_range[OF ok(2)] obtain y where y: "parseFloat lonStr = Fin y" "- 180 \<le> y" "y \<le> 180"
      by blast
    show "\<exists>latStr lonStr rStr lat lon.
            circle_parts s = Some (latStr, lonStr, rStr)
          \<and> parseFloat latStr = Fin lat \<and> - 90 \<le> lat \<and> lat \<le> 90
          \<and> parseFloat lonStr = Fin lon \<and> - 180 \<le> lon \<and> lon \<le> 180
          \<and> js_gt (parseFloat rStr) (Fin 0)
          \<and> c = \<lparr>center = (lon, lat), radius = parseFloat rStr\<rparr>"
      using cp x y ok(3) c by auto
  qed
  have e: "parseCircleString ''-41.0,174.0 50'' = Some \<lparr>center = (174, - 41), radius = Fin 50\<rparr>"
    by (simp add: parseCircleString_def str_eval float_eval js_ge_def js_le_def js_gt_def)
  show ?thesis by (intro conjI a b c d e)
qed

theorem parseCircleString_null_cases_witness:
  "parseCircleString [] = None
   \<and> circle_parts ''-41.0,174.0'' = None \<and> parseCircleString ''-41.0,174.0'' = None
   \<and> circle_parts ''-41.0,174.0 0'' = Some (''-41.0'', ''174.0'', ''0'')
   \<and> parseCircleString ''-41.0,174.0 0'' = None
   \<and> circle_parts ''-41.0,174.0 abc'' = Some (''-41.0'', ''174.0'', ''abc'')
   \<and> parseCircleString ''-41.0,174.0 abc'' = None
   \<and> circle_parts ''-91,174.0 5'' = Some (''-91'', ''174.0'', ''5'')
   \<and> parseCircleString ''-91,174.0 5'' = None
   \<and> parseCircleString ''-41.0,174.0 50'' = Some \<lparr>center = (174, - 41), radius = Fin 50\<rparr>"
proof -
  have p1: "circle_parts ''-41.0,174.0'' = None"
    by (simp add: circle_parts_def str_eval)
  have p2: "circle_parts ''-41.0,174.0 0'' = Some (''-41.0'', ''174.0'', ''0'')"
    by (simp add: circle_parts_def str_eval)
  have p3: "circle_parts ''-41.0,174.0 abc'' = Some (''-41.0'', ''174.0'', ''abc'')"
    by (simp add: circle_parts_def str_eval)
  have p4: "circle_parts ''-91,174.0 5'' = Some (''-91'', ''174.0'', ''5'')"
    by (simp add: circle_parts_def str_eval)
  have f2: "js_le (parseFloat ''0'') (Fin 0)"
    by (simp add: str_eval float_eval js_le_def)
  have f3: "isNaN (parseFloat ''abc'')"
    by (simp add: str_eval float_eval)
  have f4: "js_lt (parseFloat ''-91'') (Fin (- 90))"
    by (simp add: str_eval float_eval)
  have r0: "parseCircleString [] = None"
    using parseCircleString_null_cases[of "[]"] by simp
  have r1: "parseCircleString ''-41.0,174.0'' = None"
    using parseCircleString_null_cases[of "''-41.0,174.0''"] p1 by blast
  have r2: "parseCircleString ''-41.0,174.0 0'' = None"
    using parseCircleString_null_cases[of "''-41.0,174.0 0''"] p2 f2 by blast
  have r3: "parseCircleString ''-41.0,174.0 abc'' = None"
    using parseCircleString_null_cases[of "''-41.0,174.0 abc''"] p3 f3 by blast
  have r4: "parseCircleString ''-91,174.0 5'' = None"
    using parseCircleString_null_cases[of "''-91,174.0 5''"] p4 f4 by blast
  have r5: "parseCircleString ''-41.0,174.0 50'' = Some \<lparr>center = (174, - 41), radius = Fin 50\<rparr>"
    using parseCircleString_null_cases[of "[]"] by blast
  show ?thesis using p1 p2 p3 p4 r0 r1 r2 r3 r4 r5 by blast
qed

subsection \<open>calculatePolygonCentroid\<close>

lemma cross_term_Cons: "cross_term (p # ps) (Suc i) = cross_term ps i"
  by (simp add: cross_term_def)

lemma shoelace_sums:
  "shoelace ps (a, cx, cy) =
     (a + (\<Sum>i < length ps - 1. cross_term ps i),
      cx + (\<Sum>i < length ps - 1. (fst (ps ! i) + fst (ps ! Suc i)) * cross_term ps i),
      cy + (\<Sum>i < length ps - 1. (snd (ps ! i) + snd (ps ! Suc i)) * cross_term ps i))"
proof (induction ps "(a, cx, cy)" arbitrary: a cx cy rule: shoelace.induct)
  case (1 x0 y0 x1 y1 ps area cx cy)
  let ?q = "(x1, y1) # ps"
  let ?a = "x0 * y1 - x1 * y0"
  have len: "length ((x0, y0) # ?q) - 1 = Suc (length ?q - 1)" by simp
  have ct0: "cross_term ((x0, y0) # ?q) 0 = ?a" by (simp add: cross_term_def)
  have ih: "shoelace ?q (area + ?a, cx + (x0 + x1) * ?a, cy + (y0 + y1) * ?a) =
     (area + ?a + (\<Sum>i < length ?q - 1. cross_term ?q i),
      cx + (x0 + x1) * ?a + (\<Sum>i < length ?q - 1. (fst (?q ! i) + fst (?q ! Suc i)) * cross_term ?q i),
      cy + (y0 + y1) * ?a + (\<Sum>i < length ?q - 1. (snd (?q ! i) + snd (?q ! Suc i)) * cross_term ?q i))"
    using "1.hyps"[of ?a] by simp
  show ?case
    unfolding len sum.lessThan_Suc_shift
    using ih by (simp add: ct0 cross_term_Cons Let_def add.assoc)
qed simp_all

lemma sum_points_sums:
  "sum_points ps (x, y) = (x + sum_list (map fst ps), y + sum_list (map snd ps))"
  by (induction ps "(x, y)" arbitrary: x y rule: sum_points.induct) (auto simp: add.assoc)

lemma centroid_eq:
  "calculatePolygonCentroid (ring # rest) =
     Some (if length ring < 3 then (0, 0) else shoelace_centroid ring)"
  by (simp add: calculatePolygonCentroid_def shoelace_sums sum_points_sums
        shoelace_centroid_def signed_area_def Let_def)




section \<open>Properties of the feed scan\<close>

lemmas rx_eval = matchAll_def rss_regex_def atom_regex_def greedy_def rss_links_def atom_links_def

lemma first_some_map:
  "first_some (map f ks) = Some x \<Longrightarrow> \<exists>k \<in> set ks. f k = Some x"
proof (induction ks)
  case Nil
  then show ?case by simp
next
  case (Cons k ks)
  then show ?case by (cases "f k") auto
qed

lemma greedy_le: "greedy cl hi s \<le> length s"
proof (cases hi)
  case None
  then show ?thesis by (simp add: greedy_def length_takeWhile_le)
next
  case (Some h)
  have "length (takeWhile (in_class cl) (take h s)) \<le> length (take h s)"
    by (rule length_takeWhile_le)
  then show ?thesis using Some by (simp add: greedy_def)
qed

lemma greedy_le_hi: "greedy cl (Some h) s \<le> h"
  using length_takeWhile_le[of "in_class cl" "take h s"] by (simp add: greedy_def)

lemma rx_match_caps:
  "rx_match r s = Some (caps, rest) \<Longrightarrow>
     list_all2 (\<lambda>b c. fst b \<le> length c \<and> (\<forall>h. snd b = Some h \<longrightarrow> length c \<le> h))
       (cap_bounds r) caps"
proof (induction r s arbitrary: caps rest rule: rx_match.induct)
  case (1 s)
  then show ?case by simp
next
  case (2 l r s)
  then show ?case by (auto split: if_splits)
next
  case (3 cl lo hi r s)
  from "3.prems" have "first_some (map (\<lambda>k. rx_match r (drop k s))
      (rev [lo..<Suc (greedy cl hi s)])) = Some (caps, rest)" by simp
  from first_some_map[OF this] obtain k where k: "k \<in> set (rev [lo..<Suc (greedy cl hi s)])"
      and m: "rx_match r (drop k s) = Some (caps, rest)" by blast
  show ?case using "3.IH"[OF k m] by simp
next
  case (4 cl lo hi r s)
  let ?f = "\<lambda>k. map_option (\<lambda>(caps, rest). (take k s # caps, rest)) (rx_match r (drop k s))"
  from "4.prems" have "first_some (map ?f (rev [lo..<Suc (greedy cl hi s)])) = Some (caps, rest)"
    by simp
  from first_some_map[OF this] obtain k where k: "k \<in> set (rev [lo..<Suc (greedy cl hi s)])"
      and m: "?f k = Some (caps, rest)" by blast
  from m obtain caps' where m': "rx_match r (drop k s) = Some (caps', rest)"
      and c: "caps = take k s # caps'"
    by (auto split: prod.splits)
  have kb: "lo \<le> k" "k \<le> greedy cl hi s" using k by auto
  have len: "length (take k s) = k" using kb(2) greedy_le[of cl hi s] by simp
  have hi: "\<forall>h. hi = Some h \<longrightarrow> k \<le> h"
  proof (intro allI impI)
    fix h assume "hi = Some h"
    then have "greedy cl hi s \<le> h" using greedy_le_hi[of cl h s] by simp
    then show "k \<le> h" using kb(2) by simp
  qed
  show ?case using "4.IH"[OF k m'] c len kb(1) hi by simp
qed

lemma match_all_from_origin:
  "m \<in> set (match_all_from r k s) \<Longrightarrow> \<exists>t rest. rx_match r t = Some (snd m, rest)"
proof (induction s arbitrary: k)
  case Nil
  show ?case
  proof (cases "rx_match r []")
    case None
    then have "match_all_from r k [] = []" by simp
    then show ?thesis using Nil.prems by simp
  next
    case (Some a)
    obtain caps rest where a: "a = (caps, rest)" by (cases a)
    have "match_all_from r k [] = (if k = 0 then [([], caps)] else [])"
      using Some a by simp
    then have "snd m = caps" using Nil.prems by (cases "k = 0") simp_all
    then show ?thesis using Some a by blast
  qed
next
  case (Cons c cs)
  show ?case
  proof (cases "k > 0")
    case True
    then have "m \<in> set (match_all_from r (k - 1) cs)" using Cons.prems by simp
    then show ?thesis by (rule Cons.IH)
  next
    case k0: False
    show ?thesis
    proof (cases "rx_match r (c # cs)")
      case None
      then have "m \<in> set (match_all_from r 0 cs)" using Cons.prems k0 by simp
      then show ?thesis by (rule Cons.IH)
    next
      case (Some a)
      obtain caps rest where a: "a = (caps, rest)" by (cases a)
      from Cons.prems k0 Some a
      have "m = (take (length (c # cs) - length rest) (c # cs), caps)
            \<or> m \<in> set (match_all_from r (length (c # cs) - length rest - 1) cs)"
        by simp
      then show ?thesis
      proof
        assume "m = (take (length (c # cs) - length rest) (c # cs), caps)"
        then have "rx_match r (c # cs) = Some (snd m, rest)" using Some a by simp
        then show ?thesis by blast
      next
        assume "m \<in> set (match_all_from r (length (c # cs) - length rest - 1) cs)"
        then show ?thesis by (rule Cons.IH)
      qed
    qed
  qed
qed

lemma one_capture:
  assumes "cap_bounds r = [(lo, Some h)]" and "m \<in> set (matchAll r s)"
  shows "\<exists>c. snd m = [c] \<and> lo \<le> length c \<and> length c \<le> h"
proof -
  from assms(2) obtain t rest where "rx_match r t = Some (snd m, rest)"
    unfolding matchAll_def using match_all_from_origin by blast
  from rx_match_caps[OF this] show ?thesis
    unfolding assms(1) by (auto simp: list_all2_Cons1)
qed

lemma rss_bounds: "cap_bounds rss_regex = [(1, Some 1000)]"
  by (simp add: rss_regex_def)

lemma atom_bounds: "cap_bounds atom_regex = [(1, Some 1000)]"
  by (simp add: atom_regex_def)

lemma raw_link_length:
  assumes "raw \<in> set (rss_links feed) \<union> set (atom_links feed)"
  shows "1 \<le> length raw \<and> length raw \<le> 1000"
  using assms one_capture[OF rss_bounds, of _ feed] one_capture[OF atom_bounds, of _ feed]
  by (fastforce simp: rss_links_def atom_links_def)

lemma push_links_eq:
  "push_links ms acc = acc @ filter isCapAlertLink (map (\<lambda>m. trim (hd (snd m))) ms)"
  by (induction ms acc rule: push_links.induct) (auto simp: Let_def)

lemma uniq_from_set: "set (uniq_from seen xs) = set xs - set seen"
  by (induction xs arbitrary: seen) auto

lemma uniq_from_distinct: "distinct (uniq_from seen xs)"
  by (induction xs arbitrary: seen) (auto simp: uniq_from_set)

lemma parseFeed_eq:
  "parseFeed feed =
     uniq_from [] (filter isCapAlertLink (map trim (rss_links feed @ atom_links feed)))"
  by (simp add: parseFeed_def push_links_eq rss_links_def atom_links_def Let_def comp_def)

lemma trim_length_le: "length (trim s) \<le> length s"
proof -
  have "length (dropWhile is_space (rev (dropWhile is_space s))) \<le> length (rev (dropWhile is_space s))"
    by (rule length_dropWhile_le)
  also have "\<dots> \<le> length s" by (simp add: length_dropWhile_le)
  finally show ?thesis by (simp add: trim_def)
qed

text \<open>
  Claim C9. \<open>parseFeed\<close> returns the links the two scans find (the bodies of
  \<open><link>...</link>\<close>, then the \<open>href\<close> attributes of \<open><link ...>\<close>), trimmed, kept when they
  contain \<open>/cap/\<close> or \<open>alert\<close>, each once and in the order of first occurrence: the result has
  no duplicates and its elements are exactly the trimmed raw links that pass the test. Every
  raw link has between 1 and 1000 characters, so no returned link has more than 1000. When no
  raw link passes the test the result is the empty list; \<open>parseFeed\<close> is a total function
  and throws nowhere.
\<close>

theorem parseFeed_links:
  "parseFeed feed =
     uniq_from [] (filter isCapAlertLink (map trim (rss_links feed @ atom_links feed)))
   \<and> distinct (parseFeed feed)
   \<and> set (parseFeed feed) =
       {link \<in> trim ` (set (rss_links feed) \<union> set (atom_links feed)).
          str_includes link ''/cap/'' \<or> str_includes link ''alert''}
   \<and> (\<forall>raw \<in> set (rss_links feed) \<union> set (atom_links feed). 1 \<le> length raw \<and> length raw \<le> 1000)
   \<and> (\<forall>link \<in> set (parseFeed feed). length link \<le> 1000)
   \<and> ((\<forall>raw \<in> set (rss_links feed) \<union> set (atom_links feed). \<not> isCapAlertLink (trim raw))
        \<longrightarrow> parseFeed feed = [])"
proof -
  have s: "set (parseFeed feed) =
       {link \<in> trim ` (set (rss_links feed) \<union> set (atom_links feed)).
          str_includes link ''/cap/'' \<or> str_includes link ''alert''}"
    unfolding parseFeed_eq uniq_from_set by (auto simp: isCapAlertLink_def)
  have l: "\<forall>link \<in> set (parseFeed feed). length link \<le> 1000"
  proof
    fix link assume "link \<in> set (parseFeed feed)"
    then obtain raw where r: "raw \<in> set (rss_links feed) \<union> set (atom_links feed)" "link = trim raw"
      unfolding s by auto
    then show "length link \<le> 1000"
      using raw_link_length[OF r(1)] trim_length_le[of raw] by simp
  qed
  have e: "(\<forall>raw \<in> set (rss_links feed) \<union> set (atom_links feed). \<not> isCapAlertLink (trim raw))
        \<longrightarrow> parseFeed feed = []"
  proof
    assume a: "\<forall>raw \<in> set (rss_links feed) \<union> set (atom_links feed). \<not> isCapAlertLink (trim raw)"
    then have "filter isCapAlertLink (map trim (rss_links feed @ atom_links feed)) = []"
      by (auto simp: filter_empty_conv)
    then show "parseFeed feed = []" unfolding parseFeed_eq by simp
  qed
  have d: "distinct (parseFeed feed)"
    unfolding parseFeed_eq by (rule uniq_from_distinct)
  have b: "\<forall>raw \<in> set (rss_links feed) \<union> set (atom_links feed). 1 \<le> length raw \<and> length raw \<le> 1000"
    using raw_link_length by blast
  show ?thesis
    by (intro conjI parseFeed_eq d s b l e)
qed

theorem parseFeed_links_witness:
  "rss_links ''<rss><link>https://x/cap/123</link><link>https://x/other</link><link href=\"https://x/cap/123\"/></rss>''
     = [''https://x/cap/123'', ''https://x/other'']
   \<and> atom_links ''<rss><link>https://x/cap/123</link><link>https://x/other</link><link href=\"https://x/cap/123\"/></rss>''
     = [''https://x/cap/123'']
   \<and> parseFeed ''<rss><link>https://x/cap/123</link><link>https://x/other</link><link href=\"https://x/cap/123\"/></rss>''
     = [''https://x/cap/123'']
   \<and> rss_links ''<rss><link> https://x/other </link></rss>'' = ['' https://x/other '']
   \<and> atom_links ''<rss><link> https://x/other </link></rss>'' = []
   \<and> parseFeed ''<rss><link> https://x/other </link></rss>'' = []"
proof -
  let ?F = "''<rss><link>https://x/cap/123</link><link>https://x/other</link><link href=\"https://x/cap/123\"/></rss>''"
  let ?G = "''<rss><link> https://x/other </link></rss>''"
  have r1: "rss_links ?F = [''https://x/cap/123'', ''https://x/other'']"
    by (simp add: rx_eval)
  have a1: "atom_links ?F = [''https://x/cap/123'']"
    by (simp add: rx_eval)
  have r2: "rss_links ?G = ['' https://x/other '']"
    by (simp add: rx_eval)
  have a2: "atom_links ?G = []"
    by (simp add: rx_eval)
  have c: "isCapAlertLink ''https://x/cap/123''" "\<not> isCapAlertLink ''https://x/other''"
    by (simp_all add: isCapAlertLink_def)
  have t: "trim ''https://x/cap/123'' = ''https://x/cap/123''" "trim ''https://x/other'' = ''https://x/other''"
      "trim '' https://x/other '' = ''https://x/other''"
    by (simp_all add: str_eval)
  have p1: "parseFeed ?F = [''https://x/cap/123'']"
    using parseFeed_links[of ?F] unfolding r1 a1 by (simp add: t c)
  have h: "\<forall>raw \<in> set (rss_links ?G) \<union> set (atom_links ?G). \<not> isCapAlertLink (trim raw)"
    unfolding r2 a2 by (simp add: t c)
  have p2: "parseFeed ?G = []"
    using parseFeed_links[of ?G] h by blast
  show ?thesis using r1 a1 p1 r2 a2 p2 by simp
qed

section \<open>Properties of the certificate fingerprint\<close>

lemma rounds_length: "length st = 8 \<Longrightarrow> length (rounds ks ws st) = 8"
  by (induction ks ws st rule: rounds.induct) (simp_all add: rstep_def)

lemma compress_length: "length hs = 8 \<Longrightarrow> length (compress hs ws) = 8"
  by (simp add: compress_def rounds_length)

lemma blocks_length: "length hs = 8 \<Longrightarrow> length (blocks hs ws) = 8"
  by (induction hs ws rule: blocks.induct) (simp_all add: compress_length)

lemma sha256_length: "length (sha256 m) = 32"
proof -
  have l: "length (blocks H256 (words_of (pad m))) = 8"
    by (rule blocks_length) (simp add: H256_def)
  have "length (concat (map be_bytes4 ws)) = 4 * length ws" for ws
    by (induction ws) (simp_all add: be_bytes4_def)
  then show ?thesis using l by (simp add: sha256_def)
qed

lemma sha256_bytes: "b \<in> set (sha256 m) \<Longrightarrow> b < 256"
  by (auto simp: sha256_def be_bytes4_def)

lemma below_16:
  "n < 16 \<Longrightarrow> n \<in> {0, 1, 2, 3, 4, 5, 6, 7, 8, 9, 10, 11, 12, 13, 14, 15 :: nat}"
  by (simp add: insert_iff) arith

lemma upper_hex_digit: "n < 16 \<Longrightarrow> upper_char (hex_digit n) = ''0123456789ABCDEF'' ! n"
  using below_16[of n] by (auto simp: upper_char_def hex_digit_def)

lemma hex_char_any: "n < 16 \<Longrightarrow> in_class AnyChar (''0123456789ABCDEF'' ! n)"
  using below_16[of n] by auto

lemma hex_char_set: "n < 16 \<Longrightarrow> ''0123456789ABCDEF'' ! n \<in> set ''0123456789ABCDEF''"
  by (rule nth_mem) simp

lemma upper_hex_of:
  "\<forall>b \<in> set bs. b < 256 \<Longrightarrow> toUpperCase (hex_of bs) = concat (map hex_pair bs)"
proof (induction bs)
  case Nil
  then show ?case by (simp add: toUpperCase_def hex_of_def)
next
  case (Cons b bs)
  then have b: "b div 16 < 16" "b mod 16 < 16" by auto
  have ih: "toUpperCase (hex_of bs) = concat (map hex_pair bs)" using Cons by simp
  have "toUpperCase (hex_of (b # bs)) =
        [upper_char (hex_digit (b div 16)), upper_char (hex_digit (b mod 16))] @ toUpperCase (hex_of bs)"
    by (simp add: toUpperCase_def hex_of_def)
  moreover have "concat (map hex_pair (b # bs)) =
        [''0123456789ABCDEF'' ! (b div 16), ''0123456789ABCDEF'' ! (b mod 16)] @ concat (map hex_pair bs)"
    by (simp add: hex_pair_def[of b])
  ultimately show ?case
    using upper_hex_digit[OF b(1)] upper_hex_digit[OF b(2)] ih by simp
qed

lemma match_two:
  assumes "in_class AnyChar c1" "in_class AnyChar c2"
  shows "rx_match [Rep AnyChar 2 (Some 2)] (c1 # c2 # rest) = Some ([], rest)"
proof -
  have g: "greedy AnyChar (Some 2) (c1 # c2 # rest) = 2"
    using assms by (simp add: greedy_def)
  have u: "rev [2..<Suc 2] = [2::nat]" by simp
  show ?thesis
    unfolding rx_match.simps g u by simp
qed

lemma match_all_pairs:
  "\<forall>b \<in> set bs. b < 256 \<Longrightarrow>
     match_all_from [Rep AnyChar 2 (Some 2)] 0 (concat (map hex_pair bs)) = map (\<lambda>b. (hex_pair b, [])) bs"
proof (induction bs)
  case Nil
  have g: "greedy AnyChar (Some 2) [] = 0" by (simp add: greedy_def)
  show ?case by (simp add: g)
next
  case (Cons b bs)
  then have b: "b div 16 < 16" "b mod 16 < 16" by auto
  let ?c1 = "''0123456789ABCDEF'' ! (b div 16)"
  let ?c2 = "''0123456789ABCDEF'' ! (b mod 16)"
  let ?rest = "concat (map hex_pair bs)"
  have hp: "hex_pair b = [?c1, ?c2]" by (simp add: hex_pair_def)
  have e: "concat (map hex_pair (b # bs)) = ?c1 # ?c2 # ?rest"
    by (simp add: hp)
  have m1: "rx_match [Rep AnyChar 2 (Some 2)] (?c1 # ?c2 # ?rest) = Some ([], ?rest)"
    by (rule match_two) (rule hex_char_any[OF b(1)], rule hex_char_any[OF b(2)])
  have ih: "match_all_from [Rep AnyChar 2 (Some 2)] 0 ?rest = map (\<lambda>b. (hex_pair b, [])) bs"
    using Cons by simp
  have "match_all_from [Rep AnyChar 2 (Some 2)] 0 (?c1 # ?c2 # ?rest)
        = ([?c1, ?c2], []) # match_all_from [Rep AnyChar 2 (Some 2)] (Suc 0) (?c2 # ?rest)"
    unfolding match_all_from.simps m1 by simp
  also have "match_all_from [Rep AnyChar 2 (Some 2)] (Suc 0) (?c2 # ?rest)
        = match_all_from [Rep AnyChar 2 (Some 2)] 0 ?rest"
    by simp
  finally show ?case unfolding e using ih by (simp add: hp)
qed

lemma join_nonempty: "xs \<noteq> [] \<Longrightarrow> \<forall>x \<in> set xs. x \<noteq> [] \<Longrightarrow> join sep xs \<noteq> []"
  by (induction sep xs rule: join.induct) auto

lemma join_length:
  "xs \<noteq> [] \<Longrightarrow> \<forall>x \<in> set xs. length x = 2 \<Longrightarrow> length (join '':'' xs) = 3 * length xs - 1"
  by (induction "'':''" xs rule: join.induct) auto

lemma render_fingerprint_pairs:
  assumes "\<forall>b \<in> set digest. b < 256" "digest \<noteq> []"
  shows "render_fingerprint digest = join '':'' (map hex_pair digest)"
proof -
  have p: "map fst (matchAll [Rep AnyChar 2 (Some 2)] (toUpperCase (hex_of digest))) = map hex_pair digest"
    unfolding matchAll_def upper_hex_of[OF assms(1)] match_all_pairs[OF assms(1)]
    by (simp add: comp_def)
  have ne: "map hex_pair digest \<noteq> []" using assms(2) by simp
  have ne2: "join '':'' (map hex_pair digest) \<noteq> []"
    by (rule join_nonempty[OF ne]) (simp add: hex_pair_def)
  show ?thesis
    unfolding render_fingerprint_def Let_def p using ne ne2 by simp
qed

lemma replicate_numeral: "replicate (numeral k) x = x # replicate (pred_numeral k) x"
  by (simp add: numeral_eq_Suc)

lemmas sha_eval = sha256_def pad_def be_bytes8_def be_bytes4_def compress_def K256_def H256_def
  T1_def T2_def rstep_def add32_def ssig0_def ssig1_def bsig0_def bsig1_def ch_def maj_def rotr_def
  replicate_numeral

lemmas b64_eval = cleanCert_def is_space_def atob_def strip_padding_def b64_alphabet_def b64_val_def

lemma sha256_zero3: "sha256 [0, 0, 0] =
  [112, 158, 128, 200, 132, 135, 162, 65, 30, 30, 228, 223, 185, 242, 42, 134, 20, 146, 210, 12,
   71, 101, 21, 12, 12, 121, 74, 189, 112, 248, 20, 124]"
  by (simp add: sha_eval)

lemma sha256_AAAA: "sha256 [65, 65, 65, 65] =
  [99, 193, 221, 149, 31, 254, 223, 111, 127, 217, 104, 173, 78, 250, 57, 184, 237, 88, 79, 22,
   47, 70, 231, 21, 17, 78, 225, 132, 248, 222, 146, 1]"
  by (simp add: sha_eval)

lemma sha256_nonempty: "sha256 m \<noteq> []"
  using sha256_length[of m] by auto

lemma parse_signature_fingerprint:
  "fingerprint (parse_signature certSection) =
     (case atob (cleanCert certSection) of
        None \<Rightarrow> ''Unknown''
      | Some bytes \<Rightarrow> join '':'' (map hex_pair (sha256 bytes)))"
proof (cases "atob (cleanCert certSection)")
  case None
  then show ?thesis by (simp add: parse_signature_def)
next
  case (Some bytes)
  have r: "render_fingerprint (sha256 bytes) = join '':'' (map hex_pair (sha256 bytes))"
    by (rule render_fingerprint_pairs) (auto simp: sha256_bytes sha256_nonempty)
  have ne: "join '':'' (map hex_pair (sha256 bytes)) \<noteq> []"
    by (rule join_nonempty) (simp_all add: sha256_nonempty hex_pair_def)
  show ?thesis using Some r ne by (simp add: parse_signature_def Let_def)
qed

lemma hex_pair_shape:
  "b < 256 \<Longrightarrow> length (hex_pair b) = 2 \<and> set (hex_pair b) \<subseteq> set ''0123456789ABCDEF''"
proof -
  assume "b < 256"
  then have b: "b div 16 < 16" "b mod 16 < 16" by auto
  show ?thesis
    using hex_char_set[OF b(1)] hex_char_set[OF b(2)] by (simp add: hex_pair_def)
qed

text \<open>
  Claim C2, as amended. For every certificate section the fingerprint of the signature is
  \<open>Unknown\<close> when the cleaned text (white space and the \<open>&#13;\<close> entity removed) is not
  base64, and otherwise the SHA-256 hash of the bytes the cleaned text decodes to, rendered
  as 32 pairs of upper-case hexadecimal digits joined by colons: 95 characters.
\<close>

theorem fingerprint_hashes_decoded_bytes:
  "fingerprint (parse_signature certSection) =
     (case atob (cleanCert certSection) of
        None \<Rightarrow> ''Unknown''
      | Some bytes \<Rightarrow> join '':'' (map hex_pair (sha256 bytes)))
   \<and> (\<forall>bytes. atob (cleanCert certSection) = Some bytes \<longrightarrow>
         length (map hex_pair (sha256 bytes)) = 32
       \<and> (\<forall>p \<in> set (map hex_pair (sha256 bytes)).
             length p = 2 \<and> set p \<subseteq> set ''0123456789ABCDEF'')
       \<and> length (fingerprint (parse_signature certSection)) = 95)"
proof -
  have shape: "\<forall>p \<in> set (map hex_pair (sha256 bytes)).
             length p = 2 \<and> set p \<subseteq> set ''0123456789ABCDEF''" for bytes
    using hex_pair_shape sha256_bytes by auto
  have len: "length (join '':'' (map hex_pair (sha256 bytes))) = 95" for bytes
  proof -
    have "length (join '':'' (map hex_pair (sha256 bytes))) = 3 * length (map hex_pair (sha256 bytes)) - 1"
      by (rule join_length) (use shape sha256_nonempty in auto)
    then show ?thesis by (simp add: sha256_length)
  qed
  show ?thesis
    using len shape by (auto simp: parse_signature_fingerprint sha256_length)
qed

theorem fingerprint_hashes_decoded_bytes_witness:
  "cleanCert ''AA &#13;AA'' = ''AAAA''
   \<and> atob ''AAAA'' = Some [0, 0, 0]
   \<and> fingerprint (parse_signature ''AA &#13;AA'') =
       ''70:9E:80:C8:84:87:A2:41:1E:1E:E4:DF:B9:F2:2A:86:14:92:D2:0C:47:65:15:0C:0C:79:4A:BD:70:F8:14:7C''
   \<and> length (fingerprint (parse_signature ''AA &#13;AA'')) = 95
   \<and> atob (cleanCert ''A'') = None
   \<and> fingerprint (parse_signature ''A'') = ''Unknown''"
proof -
  have c: "cleanCert ''AA &#13;AA'' = ''AAAA''" by (simp add: b64_eval)
  have a: "atob ''AAAA'' = Some [0, 0, 0]" by (simp add: b64_eval)
  have n: "atob (cleanCert ''A'') = None" by (simp add: b64_eval)
  have f: "fingerprint (parse_signature ''AA &#13;AA'') =
       ''70:9E:80:C8:84:87:A2:41:1E:1E:E4:DF:B9:F2:2A:86:14:92:D2:0C:47:65:15:0C:0C:79:4A:BD:70:F8:14:7C''"
    using fingerprint_hashes_decoded_bytes[of "''AA &#13;AA''"] unfolding c a
    by (simp add: sha256_zero3 hex_pair_def)
  have ac: "atob (cleanCert ''AA &#13;AA'') = Some [0, 0, 0]" unfolding c by (rule a)
  have l: "length (fingerprint (parse_signature ''AA &#13;AA'')) = 95"
    using fingerprint_hashes_decoded_bytes[of "''AA &#13;AA''", THEN conjunct2, rule_format, OF ac]
    by blast
  have u: "fingerprint (parse_signature ''A'') = ''Unknown''"
    using fingerprint_hashes_decoded_bytes[of "''A''"] unfolding n by simp
  show ?thesis using c a n f l u by simp
qed

text \<open>
  The claim as the specification states it, the hash of the characters of the cleaned text
  itself, fails: on the certificate text \<open>AAAA\<close> the program hashes the three zero bytes
  the text decodes to, not the four characters.
\<close>

theorem fingerprint_over_text_counterexample:
  "fingerprint (parse_signature ''AAAA'') \<noteq> fingerprint_over_text ''AAAA''"
proof -
  have c: "cleanCert ''AAAA'' = ''AAAA''" by (simp add: b64_eval)
  have a: "atob ''AAAA'' = Some [0, 0, 0]" by (simp add: b64_eval)
  have l: "fingerprint (parse_signature ''AAAA'') =
       ''70:9E:80:C8:84:87:A2:41:1E:1E:E4:DF:B9:F2:2A:86:14:92:D2:0C:47:65:15:0C:0C:79:4A:BD:70:F8:14:7C''"
    unfolding parse_signature_fingerprint c a by (simp add: sha256_zero3 hex_pair_def)
  have r: "fingerprint_over_text ''AAAA'' =
       ''63:C1:DD:95:1F:FE:DF:6F:7F:D9:68:AD:4E:FA:39:B8:ED:58:4F:16:2F:46:E7:15:11:4E:E1:84:F8:DE:92:01''"
    unfolding fingerprint_over_text_def c by (simp add: sha256_AAAA hex_pair_def)
  show ?thesis unfolding l r by simp
qed

section \<open>Properties of the alert parser\<close>




section \<open>Properties of the pipeline\<close>

lemma polygon_loop_prefix:
  "\<exists>mid. fst (polygon_loop rt alert n i ps fc) = fc @ mid"
proof (induction ps arbitrary: i fc)
  case Nil
  then show ?case by simp
next
  case (Cons p ps)
  show ?case
  proof (cases "parsePolygonString p")
    case (Inl e)
    then show ?thesis by simp
  next
    case (Inr coordinates)
    show ?thesis
    proof (cases "length (hd coordinates) \<ge> 4")
      case False
      then show ?thesis using Inr Cons.IH[of "Suc i" fc] by simp
    next
      case True
      let ?pid = "if n > 1 then identifier' alert @ ''-'' @ show_nat i else identifier' alert"
      show ?thesis
      proof (cases "polygon_feature rt alert ?pid coordinates")
        case None
        then show ?thesis using Inr True by (simp add: Let_def)
      next
        case (Some pf)
        show ?thesis
        proof (cases "calculatePolygonCentroid coordinates")
          case None
          then show ?thesis using Inr True Some by (simp add: Let_def)
        next
          case c: (Some centroid)
          show ?thesis
          proof (cases "center_feature rt alert pf centroid")
            case None
            then show ?thesis using Inr True Some c by (simp add: Let_def)
          next
            case cf: (Some centerFeature)
            from Cons.IH[of "Suc i" "fc @ [pf, centerFeature]"]
            obtain mid where "fst (polygon_loop rt alert n (Suc i) ps (fc @ [pf, centerFeature]))
                = (fc @ [pf, centerFeature]) @ mid" by blast
            then show ?thesis using Inr True Some c cf by (simp add: Let_def)
          qed
        qed
      qed
    qed
  qed
qed

lemma polygon_loop_invalid:
  assumes "\<forall>q \<in> set oks. \<exists>c. parsePolygonString q = Inr c"
      and "parsePolygonString p = Inl e"
  shows "snd (polygon_loop rt alert n i (oks @ p # after) fc) = False
       \<and> fst (polygon_loop rt alert n i (oks @ p # after) fc) = fst (polygon_loop rt alert n i oks fc)"
  using assms(1)
proof (induction oks arbitrary: i fc)
  case Nil
  then show ?case using assms(2) by simp
next
  case (Cons q oks)
  then obtain coordinates where q: "parsePolygonString q = Inr coordinates" by auto
  have ih: "\<And>i fc. snd (polygon_loop rt alert n i (oks @ p # after) fc) = False
       \<and> fst (polygon_loop rt alert n i (oks @ p # after) fc) = fst (polygon_loop rt alert n i oks fc)"
    using Cons by simp
  show ?case
  proof (cases "length (hd coordinates) \<ge> 4")
    case False
    then show ?thesis using q ih by simp
  next
    case True
    let ?pid = "if n > 1 then identifier' alert @ ''-'' @ show_nat i else identifier' alert"
    show ?thesis
    proof (cases "polygon_feature rt alert ?pid coordinates")
      case None
      then show ?thesis using q True by (simp add: Let_def)
    next
      case (Some pf)
      show ?thesis
      proof (cases "calculatePolygonCentroid coordinates")
        case None
        then show ?thesis using q True Some by (simp add: Let_def)
      next
        case c: (Some centroid)
        show ?thesis
        proof (cases "center_feature rt alert pf centroid")
          case None
          then show ?thesis using q True Some c by (simp add: Let_def)
        next
          case cf: (Some centerFeature)
          show ?thesis using q True Some c cf ih by (simp add: Let_def)
        qed
      qed
    qed
  qed
qed

lemma point_feature_fields:
  assumes "feature_times rt alert = Some ts"
  shows "\<exists>f. point_feature rt alert g = Some f
           \<and> feature_id f = identifier' alert \<and> geometry f = g
           \<and> icon f = Some (getEventIcon (event (info alert)) (category (info alert)))"
  using assms by (cases ts) (auto simp: point_feature_def)

lemma show_nat_0: "show_nat 0 = ''0''"
  by (simp add: show_nat.simps)

lemma show_nat_1: "show_nat (Suc 0) = ''1''"
  by (simp add: show_nat.simps)

lemma polygon_feature_fields:
  assumes "feature_times rt alert = Some ts"
  shows "\<exists>f. polygon_feature rt alert pid coordinates = Some f
           \<and> feature_id f = pid \<and> geometry f = Polygon coordinates \<and> icon f = None"
  using assms by (cases ts) (auto simp: polygon_feature_def)

lemma center_feature_fields:
  assumes "feature_times rt alert = Some ts"
  shows "\<exists>f. center_feature rt alert pf c = Some f
           \<and> feature_id f = feature_id pf @ ''-center'' \<and> geometry f = Point c
           \<and> icon f = Some (getEventIcon (event (info alert)) (category (info alert)))"
  using assms by (cases ts) (auto simp: center_feature_def)

lemma polygon_loop_step:
  assumes parse: "parsePolygonString p = Inr [ring]" and len: "4 \<le> length ring"
      and times: "feature_times rt alert = Some ts"
  shows "\<exists>pf cf. polygon_loop rt alert n i (p # ps) fc = polygon_loop rt alert n (Suc i) ps (fc @ [pf, cf])
           \<and> feature_id pf = (if n > 1 then identifier' alert @ ''-'' @ show_nat i else identifier' alert)
           \<and> feature_id cf = feature_id pf @ ''-center''
           \<and> geometry pf = Polygon [ring] \<and> geometry cf = Point (shoelace_centroid ring)
           \<and> icon pf = None
           \<and> icon cf = Some (getEventIcon (event (info alert)) (category (info alert)))"
proof -
  let ?pid = "if n > 1 then identifier' alert @ ''-'' @ show_nat i else identifier' alert"
  from polygon_feature_fields[OF times, of ?pid "[ring]"] obtain pf where
    pf: "polygon_feature rt alert ?pid [ring] = Some pf" "feature_id pf = ?pid"
        "geometry pf = Polygon [ring]" "icon pf = None" by blast
  have c: "calculatePolygonCentroid [ring] = Some (shoelace_centroid ring)"
    using len by (simp add: centroid_eq)
  from center_feature_fields[OF times, of pf "shoelace_centroid ring"] obtain cf where
    cf: "center_feature rt alert pf (shoelace_centroid ring) = Some cf"
        "feature_id cf = feature_id pf @ ''-center''" "geometry cf = Point (shoelace_centroid ring)"
        "icon cf = Some (getEventIcon (event (info alert)) (category (info alert)))" by blast
  have "polygon_loop rt alert n i (p # ps) fc = polygon_loop rt alert n (Suc i) ps (fc @ [pf, cf])"
    using parse len pf(1) c cf(1) by (simp add: Let_def)
  then show ?thesis using pf cf by blast
qed

lemma process_alert_two:
  assumes pg: "polygon (area (info alert)) = Many [p0, p1]"
      and r0: "parsePolygonString p0 = Inr [ring0]" "4 \<le> length ring0"
      and r1: "parsePolygonString p1 = Inr [ring1]" "4 \<le> length ring1"
      and times: "feature_times rt alert = Some ts"
  shows "\<exists>pf0 cf0 pf1 cf1.
           process_alert rt alert fc = fc @ [pf0, cf0, pf1, cf1]
         \<and> feature_id pf0 = identifier' alert @ ''-0''
         \<and> feature_id cf0 = identifier' alert @ ''-0-center''
         \<and> feature_id pf1 = identifier' alert @ ''-1''
         \<and> feature_id cf1 = identifier' alert @ ''-1-center''
         \<and> icon pf0 = None \<and> icon pf1 = None
         \<and> icon cf0 = Some (getEventIcon (event (info alert)) (category (info alert)))
         \<and> icon cf1 = Some (getEventIcon (event (info alert)) (category (info alert)))
         \<and> geometry pf0 = Polygon [ring0] \<and> geometry cf0 = Point (shoelace_centroid ring0)
         \<and> geometry pf1 = Polygon [ring1] \<and> geometry cf1 = Point (shoelace_centroid ring1)"
proof -
  let ?n = "Suc (Suc 0)"
  from polygon_loop_step[OF r0 times, of ?n 0 "[p1]" fc] obtain pf0 cf0 where
    s0: "polygon_loop rt alert ?n 0 [p0, p1] fc = polygon_loop rt alert ?n (Suc 0) [p1] (fc @ [pf0, cf0])"
    and f0: "feature_id pf0 = identifier' alert @ ''-0''"
        "feature_id cf0 = feature_id pf0 @ ''-center''"
        "geometry pf0 = Polygon [ring0]" "geometry cf0 = Point (shoelace_centroid ring0)"
        "icon pf0 = None"
        "icon cf0 = Some (getEventIcon (event (info alert)) (category (info alert)))"
    by (auto simp: show_nat_0 simp del: polygon_loop.simps)
  from polygon_loop_step[OF r1 times, of ?n "Suc 0" "[]" "fc @ [pf0, cf0]"] obtain pf1 cf1 where
    s1: "polygon_loop rt alert ?n (Suc 0) [p1] (fc @ [pf0, cf0])
          = polygon_loop rt alert ?n (Suc (Suc 0)) [] ((fc @ [pf0, cf0]) @ [pf1, cf1])"
    and f1: "feature_id pf1 = identifier' alert @ ''-1''"
        "feature_id cf1 = feature_id pf1 @ ''-center''"
        "geometry pf1 = Polygon [ring1]" "geometry cf1 = Point (shoelace_centroid ring1)"
        "icon pf1 = None"
        "icon cf1 = Some (getEventIcon (event (info alert)) (category (info alert)))"
    by (auto simp: show_nat_1 simp del: polygon_loop.simps)
  have loop: "polygon_loop rt alert ?n 0 [p0, p1] fc = (fc @ [pf0, cf0, pf1, cf1], True)"
    unfolding s0 s1 by simp
  have "process_alert rt alert fc = fc @ [pf0, cf0, pf1, cf1]"
    by (simp add: process_alert_def pg polygon_truthy_def polygons_of_def loop
          del: polygon_loop.simps)
  then show ?thesis using f0 f1 by auto
qed

lemma process_alert_invalid:
  assumes pg: "polygons_of (polygon (area (info alert))) = oks @ p # after"
      and oks: "\<forall>q \<in> set oks. \<exists>c. parsePolygonString q = Inr c"
      and bad: "parsePolygonString p = Inl e"
      and truthy: "polygon_truthy (polygon (area (info alert)))"
      and times: "feature_times rt alert = Some ts"
  shows "\<exists>f. process_alert rt alert fc
               = fst (polygon_loop rt alert (length (oks @ p # after)) 0 oks fc) @ [f]
           \<and> point_feature rt alert (Point (174, - 41)) = Some f"
proof -
  let ?n = "length (oks @ p # after)"
  from polygon_loop_invalid[OF oks bad, of rt alert ?n 0 after fc]
  have l: "polygon_loop rt alert ?n 0 (oks @ p # after) fc
           = (fst (polygon_loop rt alert ?n 0 oks fc), False)"
    by (simp add: prod_eq_iff)
  from point_feature_fields[OF times, of "Point (174, - 41)"] obtain f where
    f: "point_feature rt alert (Point (174, - 41)) = Some f" by blast
  have "process_alert rt alert fc = fst (polygon_loop rt alert ?n 0 oks fc) @ [f]"
    using truthy f by (simp add: process_alert_def pg l push_point_feature_def del: length_append)
  then show ?thesis using f by blast
qed

lemma polygon_loop_skip:
  assumes "parsePolygonString p = Inr [ring]" "length ring < 4"
  shows "polygon_loop rt alert n i (p # ps) fc = polygon_loop rt alert n (Suc i) ps fc"
  using assms by simp

lemma example_times:
  "feature_times example_runtime (example_alert ''2024-01-01T00:00:00.000Z'' pg)
     = Some (''2024-01-01T00:00:00.000Z'', ''2024-01-01T00:00:00.000Z'', None)"
  by (simp add: feature_times_def example_runtime_def example_alert_def)

lemma example_no_times:
  "feature_times example_runtime (example_alert ''not a date'' pg) = None"
  by (simp add: feature_times_def example_runtime_def example_alert_def)

lemma example_fields:
  "identifier' (example_alert d pg) = ''a1''"
  "polygon (area (info (example_alert d pg))) = pg"
  "getEventIcon (event (info (example_alert d pg))) (category (info (example_alert d pg)))
     = ''bb4df0a6-ca8d-4ba8-bb9e-3deb97ff015e:NaturalHazards/NH.05.HeavyRain.png''"
  by (simp_all add: example_alert_def getEventIcon_def ICON_PREFIX_def ICON_MAP_def)

lemma example_rings:
  "parsePolygonString ''0,0 0,1 1,1'' = Inr [[(0, 0), (1, 0), (1, 1), (0, 0)]]"
  "parsePolygonString ''10,10 10,11 11,11'' = Inr [[(10, 10), (11, 10), (11, 11), (10, 10)]]"
  "parsePolygonString ''0,0 1,1 0,0'' = Inr [[(0, 0), (1, 1), (0, 0)]]"
  "parsePolygonString ''bad'' = Inl (InvalidPairs [''bad''])"
  by (simp_all add: parsePolygonString_def close_ring_def str_eval float_eval pair_eval)

text \<open>
  Claim C1, as amended. For every alert whose \<open>area.polygon\<close> holds a polygon string that
  is invalid (parsing it throws), and whose timestamps are dates: the features pushed for
  the polygon strings before the first invalid one stay, and the pipeline then pushes one
  more feature for the alert, the fallback point: its id is the alert's identifier, its
  geometry the point at \<open>[174.0, -41.0]\<close>, and it carries an icon. With a single polygon
  string that is the only feature of the alert. The loop then goes on with the next alert.
\<close>

theorem invalid_polygon_falls_back:
  assumes pg: "polygons_of (polygon (area (info alert))) = oks @ p # after"
      and oks: "\<forall>q \<in> set oks. \<exists>c. parsePolygonString q = Inr c"
      and bad: "parsePolygonString p = Inl e"
      and truthy: "polygon_truthy (polygon (area (info alert)))"
      and times: "feature_times rt alert = Some ts"
  shows "\<exists>mid f. process_alert rt alert fc = fc @ mid @ [f]
           \<and> fc @ mid = fst (polygon_loop rt alert (length (oks @ p # after)) 0 oks fc)
           \<and> (oks = [] \<longrightarrow> mid = [])
           \<and> feature_id f = identifier' alert
           \<and> geometry f = Point (174, - 41)
           \<and> icon f = Some (getEventIcon (event (info alert)) (category (info alert)))
           \<and> (\<forall>url xml rest. fetch_text rt url = Some xml
                 \<and> parseXML (xml_parse rt xml) = Some alert \<longrightarrow>
                 alert_loop rt (url # rest) fc = alert_loop rt rest (fc @ mid @ [f]))"
proof -
  let ?n = "length (oks @ p # after)"
  from process_alert_invalid[OF pg oks bad truthy times, of fc] obtain f where
    f: "process_alert rt alert fc = fst (polygon_loop rt alert ?n 0 oks fc) @ [f]"
       "point_feature rt alert (Point (174, - 41)) = Some f" by blast
  from polygon_loop_prefix[of rt alert ?n 0 oks fc] obtain mid where
    mid: "fst (polygon_loop rt alert ?n 0 oks fc) = fc @ mid" by blast
  from point_feature_fields[OF times, of "Point (174, - 41)"] f(2)
  have fields: "feature_id f = identifier' alert" "geometry f = Point (174, - 41)"
      "icon f = Some (getEventIcon (event (info alert)) (category (info alert)))"
    by auto
  have e: "oks = [] \<longrightarrow> mid = []" using mid by auto
  have p: "process_alert rt alert fc = fc @ mid @ [f]" using f(1) mid by simp
  have l: "\<forall>url xml rest. fetch_text rt url = Some xml
                 \<and> parseXML (xml_parse rt xml) = Some alert \<longrightarrow>
                 alert_loop rt (url # rest) fc = alert_loop rt rest (fc @ mid @ [f])"
    using p by simp
  show ?thesis
    apply (rule exI[of _ mid], rule exI[of _ f])
    using p mid fields e l by simp
qed

theorem invalid_polygon_falls_back_witness:
  "parsePolygonString ''bad'' = Inl (InvalidPairs [''bad''])
   \<and> map feature_id (process_alert example_runtime
         (example_alert ''2024-01-01T00:00:00.000Z'' (One ''bad'')) []) = [''a1'']
   \<and> map geometry (process_alert example_runtime
         (example_alert ''2024-01-01T00:00:00.000Z'' (One ''bad'')) []) = [Point (174, - 41)]
   \<and> map icon (process_alert example_runtime
         (example_alert ''2024-01-01T00:00:00.000Z'' (One ''bad'')) [])
       = [Some ''bb4df0a6-ca8d-4ba8-bb9e-3deb97ff015e:NaturalHazards/NH.05.HeavyRain.png'']"
proof -
  let ?a = "example_alert ''2024-01-01T00:00:00.000Z'' (One ''bad'')"
  have pg: "polygons_of (polygon (area (info ?a))) = [] @ ''bad'' # []"
    by (simp add: example_fields polygons_of_def)
  have oks: "\<forall>q \<in> set []. \<exists>c. parsePolygonString q = Inr c" by simp
  have truthy: "polygon_truthy (polygon (area (info ?a)))"
    by (simp add: example_fields polygon_truthy_def)
  from invalid_polygon_falls_back[OF pg oks example_rings(4) truthy example_times, of "[]"]
  obtain mid f where
    r: "process_alert example_runtime ?a [] = [] @ mid @ [f]" "mid = []"
       "feature_id f = identifier' ?a" "geometry f = Point (174, - 41)"
       "icon f = Some (getEventIcon (event (info ?a)) (category (info ?a)))"
    by blast
  show ?thesis using r example_rings(4) by (simp add: example_fields)
qed

text \<open>
  The claim as stated, no feature at all for an alert with an invalid polygon string: the
  alert \<open>a1\<close> with the polygon string \<open>bad\<close> gets its fallback point feature.
\<close>

theorem invalid_polygon_no_features_counterexample:
  "parsePolygonString ''bad'' = Inl (InvalidPairs [''bad''])
   \<and> process_alert example_runtime (example_alert ''2024-01-01T00:00:00.000Z'' (One ''bad'')) [] \<noteq> []"
proof -
  let ?a = "example_alert ''2024-01-01T00:00:00.000Z'' (One ''bad'')"
  have pg: "polygons_of (polygon (area (info ?a))) = [] @ ''bad'' # []"
    by (simp add: example_fields polygons_of_def)
  have oks: "\<forall>q \<in> set []. \<exists>c. parsePolygonString q = Inr c" by simp
  have truthy: "polygon_truthy (polygon (area (info ?a)))"
    by (simp add: example_fields polygon_truthy_def)
  from process_alert_invalid[OF pg oks example_rings(4) truthy example_times, of "[]"]
  obtain f where "process_alert example_runtime ?a [] = fst (polygon_loop example_runtime ?a
      (length ([] @ ''bad'' # [])) 0 [] []) @ [f]" by blast
  then have "process_alert example_runtime ?a [] = [f]" by simp
  then show ?thesis using example_rings(4) by simp
qed

text \<open>
  Claim C3, as amended. For every alert with exactly two polygon strings in \<open>area.polygon\<close>,
  each parsing to a ring of at least four positions, and whose timestamps are dates, the
  pipeline appends exactly four features, in this order: the polygon feature with id
  \<open>{identifier}-0\<close>, its center point \<open>{identifier}-0-center\<close>, the polygon feature
  \<open>{identifier}-1\<close> and its center point \<open>{identifier}-1-center\<close>. The polygon features
  carry no icon and hold the rings; the center features carry the icon and lie at the
  centroids of the rings.
\<close>

theorem two_polygons_four_features:
  assumes pg: "polygon (area (info alert)) = Many [p0, p1]"
      and r0: "parsePolygonString p0 = Inr [ring0]" "4 \<le> length ring0"
      and r1: "parsePolygonString p1 = Inr [ring1]" "4 \<le> length ring1"
      and times: "feature_times rt alert = Some ts"
  shows "\<exists>pf0 cf0 pf1 cf1.
           process_alert rt alert fc = fc @ [pf0, cf0, pf1, cf1]
         \<and> feature_id pf0 = identifier' alert @ ''-0''
         \<and> feature_id cf0 = identifier' alert @ ''-0-center''
         \<and> feature_id pf1 = identifier' alert @ ''-1''
         \<and> feature_id cf1 = identifier' alert @ ''-1-center''
         \<and> icon pf0 = None \<and> icon pf1 = None
         \<and> icon cf0 = Some (getEventIcon (event (info alert)) (category (info alert)))
         \<and> icon cf1 = Some (getEventIcon (event (info alert)) (category (info alert)))
         \<and> geometry pf0 = Polygon [ring0] \<and> geometry cf0 = Point (shoelace_centroid ring0)
         \<and> geometry pf1 = Polygon [ring1] \<and> geometry cf1 = Point (shoelace_centroid ring1)"
  by (rule process_alert_two[OF pg r0 r1 times])

theorem two_polygons_four_features_witness:
  "parsePolygonString ''0,0 0,1 1,1'' = Inr [[(0, 0), (1, 0), (1, 1), (0, 0)]]
   \<and> parsePolygonString ''10,10 10,11 11,11'' = Inr [[(10, 10), (11, 10), (11, 11), (10, 10)]]
   \<and> map feature_id (process_alert example_runtime
        (example_alert ''2024-01-01T00:00:00.000Z'' (Many [''0,0 0,1 1,1'', ''10,10 10,11 11,11''])) [])
       = [''a1-0'', ''a1-0-center'', ''a1-1'', ''a1-1-center'']
   \<and> map icon (process_alert example_runtime
        (example_alert ''2024-01-01T00:00:00.000Z'' (Many [''0,0 0,1 1,1'', ''10,10 10,11 11,11''])) [])
       = [None, Some ''bb4df0a6-ca8d-4ba8-bb9e-3deb97ff015e:NaturalHazards/NH.05.HeavyRain.png'',
          None, Some ''bb4df0a6-ca8d-4ba8-bb9e-3deb97ff015e:NaturalHazards/NH.05.HeavyRain.png'']"
proof -
  let ?a = "example_alert ''2024-01-01T00:00:00.000Z'' (Many [''0,0 0,1 1,1'', ''10,10 10,11 11,11''])"
  have pg: "polygon (area (info ?a)) = Many [''0,0 0,1 1,1'', ''10,10 10,11 11,11'']"
    by (simp add: example_fields)
  have l0: "4 \<le> length [(0, 0), (1, 0), (1, 1), (0, 0) :: point]" by simp
  have l1: "4 \<le> length [(10, 10), (11, 10), (11, 11), (10, 10) :: point]" by simp
  from two_polygons_four_features[OF pg example_rings(1) l0 example_rings(2) l1 example_times, of "[]"]
  obtain pf0 cf0 pf1 cf1 where
    r: "process_alert example_runtime ?a [] = [] @ [pf0, cf0, pf1, cf1]"
       "feature_id pf0 = identifier' ?a @ ''-0''"
       "feature_id cf0 = identifier' ?a @ ''-0-center''"
       "feature_id pf1 = identifier' ?a @ ''-1''"
       "feature_id cf1 = identifier' ?a @ ''-1-center''"
       "icon pf0 = None" "icon pf1 = None"
       "icon cf0 = Some (getEventIcon (event (info ?a)) (category (info ?a)))"
       "icon cf1 = Some (getEventIcon (event (info ?a)) (category (info ?a)))"
    by blast
  show ?thesis using r example_rings(1,2) by (simp add: example_fields)
qed

text \<open>
  The claim as stated, four features for every alert with two polygon strings that parse:
  when \<open>sent\<close> is not a date, building the first feature throws, in the polygon branch and
  again on the fallback path, and the alert gets no feature; and a string that parses to a
  closed ring of three positions is passed over by the guard on the ring's length, leaving
  two features.
\<close>

theorem two_polygons_four_features_counterexample:
  "parsePolygonString ''0,0 0,1 1,1'' = Inr [[(0, 0), (1, 0), (1, 1), (0, 0)]]
   \<and> parsePolygonString ''10,10 10,11 11,11'' = Inr [[(10, 10), (11, 10), (11, 11), (10, 10)]]
   \<and> process_alert example_runtime
        (example_alert ''not a date'' (Many [''0,0 0,1 1,1'', ''10,10 10,11 11,11''])) [] = []
   \<and> parsePolygonString ''0,0 1,1 0,0'' = Inr [[(0, 0), (1, 1), (0, 0)]]
   \<and> map feature_id (process_alert example_runtime
        (example_alert ''2024-01-01T00:00:00.000Z'' (Many [''0,0 1,1 0,0'', ''10,10 10,11 11,11''])) [])
       = [''a1-1'', ''a1-1-center'']"
proof -
  let ?b = "example_alert ''not a date'' (Many [''0,0 0,1 1,1'', ''10,10 10,11 11,11''])"
  let ?c = "example_alert ''2024-01-01T00:00:00.000Z'' (Many [''0,0 1,1 0,0'', ''10,10 10,11 11,11''])"
  have nt: "polygon_feature example_runtime ?b pid cs = None" for pid cs
    by (simp add: polygon_feature_def example_no_times)
  have np: "point_feature example_runtime ?b g = None" for g
    by (simp add: point_feature_def example_no_times)
  have lb: "polygon_loop example_runtime ?b (Suc (Suc 0)) 0 [''0,0 0,1 1,1'', ''10,10 10,11 11,11''] []
      = ([], False)"
    by (simp add: example_rings nt)
  have b: "process_alert example_runtime ?b [] = []"
    by (simp add: process_alert_def example_fields polygon_truthy_def polygons_of_def lb
          push_point_feature_def np del: polygon_loop.simps)
  have skip: "polygon_loop example_runtime ?c (Suc (Suc 0)) 0 [''0,0 1,1 0,0'', ''10,10 10,11 11,11''] []
      = polygon_loop example_runtime ?c (Suc (Suc 0)) (Suc 0) [''10,10 10,11 11,11''] []"
    by (rule polygon_loop_skip[OF example_rings(3)]) simp
  have l1: "4 \<le> length [(10, 10), (11, 10), (11, 11), (10, 10) :: point]" by simp
  from polygon_loop_step[OF example_rings(2) l1
      example_times[of "Many [''0,0 1,1 0,0'', ''10,10 10,11 11,11'']"],
      of "Suc (Suc 0)" "Suc 0" "[]" "[]"]
  obtain pf cf where
    s: "polygon_loop example_runtime ?c (Suc (Suc 0)) (Suc 0) [''10,10 10,11 11,11''] []
         = polygon_loop example_runtime ?c (Suc (Suc 0)) (Suc (Suc 0)) [] ([] @ [pf, cf])"
    and ids: "feature_id pf = identifier' ?c @ ''-'' @ show_nat (Suc 0)"
             "feature_id cf = feature_id pf @ ''-center''"
    by (auto simp del: polygon_loop.simps)
  have lc: "polygon_loop example_runtime ?c (Suc (Suc 0)) 0 [''0,0 1,1 0,0'', ''10,10 10,11 11,11''] []
      = ([pf, cf], True)"
    unfolding skip s by simp
  have c: "process_alert example_runtime ?c [] = [pf, cf]"
    by (simp add: process_alert_def example_fields polygon_truthy_def polygons_of_def lc
          del: polygon_loop.simps)
  show ?thesis
    using b c ids example_rings(1,2,3) by (simp add: example_fields show_nat_1)
qed

end
